theory Spec2Isabelle
  imports Main "HOL-Library.AList" "HOL-Library.List_Lexorder" "HOL-Library.Char_ord"
    "HOL-Library.Product_Lexorder"
begin

section \<open>Python values\<close>

text \<open>
  The values that the modelled code stores in attributes and dictionaries:
  \<^verbatim>\<open>None\<close>, strings, integers and booleans.  \<open>truthy\<close> is Python's truth test,
  which decides every \<^verbatim>\<open>x or y\<close> and \<^verbatim>\<open>if x\<close> of the source.
\<close>

datatype pyval = PNone | PStr string | PInt int | PBool bool

fun truthy :: "pyval \<Rightarrow> bool" where
  "truthy PNone = False"
| "truthy (PStr s) = (s \<noteq> [])"
| "truthy (PInt i) = (i \<noteq> 0)"
| "truthy (PBool b) = b"

definition py_or :: "pyval \<Rightarrow> pyval \<Rightarrow> pyval" where
  "py_or a b = (if truthy a then a else b)"

fun is_str :: "pyval \<Rightarrow> bool" where
  "is_str (PStr s) = True"
| "is_str v = False"

section \<open>Changeset\<close>

text \<open>
  \<^verbatim>\<open>Changeset.__init__(self, repos, rev, message, author, date)\<close> of
  \<^verbatim>\<open>trac/versioncontrol/api.py\<close>: the message and the author are stored through
  \<^verbatim>\<open>message or ''\<close> and \<^verbatim>\<open>author or ''\<close>.
\<close>

record ('r, 'd) changeset =
  cs_repos :: 'r
  cs_rev :: pyval
  cs_message :: pyval
  cs_author :: pyval
  cs_date :: 'd

definition Changeset_init ::
  "'r \<Rightarrow> pyval \<Rightarrow> pyval \<Rightarrow> pyval \<Rightarrow> 'd \<Rightarrow> ('r, 'd) changeset" where
  "Changeset_init repos revision message author date =
     \<lparr> cs_repos = repos, cs_rev = revision,
       cs_message = py_or message (PStr ''''),
       cs_author = py_or author (PStr ''''),
       cs_date = date \<rparr>"

section \<open>The repository table\<close>

text \<open>
  The table \<^verbatim>\<open>repository(id INTEGER, name TEXT, value TEXT)\<close>, as the list of its rows in
  insertion order; a \<^verbatim>\<open>NULL\<close> value is \<open>None\<close>.
\<close>

type_synonym row = "int \<times> string \<times> string option"

text \<open>\<^verbatim>\<open>SELECT id FROM repository WHERE name='name' AND value=%s\<close>\<close>

definition select_id_by_name :: "row list \<Rightarrow> string \<Rightarrow> int list" where
  "select_id_by_name db reponame =
     map fst (filter (\<lambda>(i, n, v). n = ''name'' \<and> v = Some reponame) db)"

text \<open>\<^verbatim>\<open>SELECT COALESCE(MAX(id), 0) FROM repository\<close>\<close>

definition select_max_id :: "row list \<Rightarrow> int" where
  "select_max_id db =
     (case db of [] \<Rightarrow> 0 | r # rs \<Rightarrow> fold (\<lambda>r m. max (fst r) m) rs (fst r))"

text \<open>
  \<^verbatim>\<open>RepositoryManager.get_repository_id\<close>: the first id found for the name is returned;
  otherwise a new id is computed, its \<^verbatim>\<open>name\<close> row is inserted, and the id is returned.
  The result is the id and the table after the call.
\<close>

definition get_repository_id :: "row list \<Rightarrow> string \<Rightarrow> int \<times> row list" where
  "get_repository_id db reponame =
     (case select_id_by_name db reponame of
        i # _ \<Rightarrow> (i, db)
      | [] \<Rightarrow> (let i = select_max_id db + 1
               in (i, db @ [(i, ''name'', Some reponame)])))"

text \<open>A run of later calls of \<open>get_repository_id\<close>, for any names.\<close>

fun get_repository_ids :: "row list \<Rightarrow> string list \<Rightarrow> row list" where
  "get_repository_ids db [] = db"
| "get_repository_ids db (n # ns) = get_repository_ids (snd (get_repository_id db n)) ns"

section \<open>Dictionaries and paths\<close>

text \<open>
  A Python dictionary is an association list with distinct keys, in insertion order:
  \<open>map_of d k\<close> reads a key, \<open>AList.update k v d\<close> is \<^verbatim>\<open>d[k] = v\<close> and
  \<open>AList.delete k d\<close> removes a key.  A repository's information is a dictionary from
  attribute names to values; the registry is a dictionary from repository names to such
  informations.
\<close>

type_synonym info = "(string \<times> pyval) list"
type_synonym registry = "(string \<times> info) list"

definition dict_in :: "'k \<Rightarrow> ('k \<times> 'v) list \<Rightarrow> bool" where
  "dict_in k d = (map_of d k \<noteq> None)"

text \<open>\<^verbatim>\<open>d.get(k, default)\<close> and \<^verbatim>\<open>d.get(k)\<close>\<close>

definition dict_get :: "('k \<times> 'v) list \<Rightarrow> 'k \<Rightarrow> 'v \<Rightarrow> 'v" where
  "dict_get d k dflt = (case map_of d k of None \<Rightarrow> dflt | Some v \<Rightarrow> v)"

definition info_get :: "info \<Rightarrow> string \<Rightarrow> pyval" where
  "info_get d k = (case map_of d k of None \<Rightarrow> PNone | Some v \<Rightarrow> v)"

text \<open>
  \<^verbatim>\<open>is_default(reponame)\<close>: \<^verbatim>\<open>not reponame or reponame in ('(default)', _('(default)'))\<close>.
  The translation \<^verbatim>\<open>_('(default)')\<close> depends on the locale and is the parameter \<open>tr\<close>.
\<close>

definition is_default :: "string \<Rightarrow> string \<Rightarrow> bool" where
  "is_default tr reponame = (reponame = [] \<or> reponame = ''(default)'' \<or> reponame = tr)"

text \<open>\<^verbatim>\<open>os.path.isabs\<close> and \<^verbatim>\<open>os.path.join\<close> of two components, on POSIX.\<close>

definition isabs :: "string \<Rightarrow> bool" where
  "isabs p = (case p of [] \<Rightarrow> False | c # _ \<Rightarrow> c = CHR ''/'')"

definition path_join :: "string \<Rightarrow> string \<Rightarrow> string" where
  "path_join a b =
     (if isabs b then b
      else if a = [] \<or> last a = CHR ''/'' then a @ b
      else a @ ''/'' @ b)"

text \<open>\<^verbatim>\<open>s.strip('/')\<close>, \<^verbatim>\<open>s.rstrip('/')\<close> and \<^verbatim>\<open>s.startswith(p)\<close>\<close>

definition rstrip_slash :: "string \<Rightarrow> string" where
  "rstrip_slash s = rev (dropWhile (\<lambda>c. c = CHR ''/'') (rev s))"

definition strip_slash :: "string \<Rightarrow> string" where
  "strip_slash s = rstrip_slash (dropWhile (\<lambda>c. c = CHR ''/'') s)"

definition startswith :: "string \<Rightarrow> string \<Rightarrow> bool" where
  "startswith s p = (take (length p) s = p)"

section \<open>Errors\<close>

text \<open>
  The exceptions of the modelled code.  A \<^verbatim>\<open>TracError\<close> carries its message as the
  message template and the keyword arguments that \<^verbatim>\<open>_(...)\<close> substitutes into it.
  \<^verbatim>\<open>NoSuchChangeset\<close> never leaves the modelled functions: it is the \<open>None\<close> of
  \<open>b_get_changeset\<close> below.
\<close>

datatype template =
    Directory_must_be_absolute
  | Repository_type_not_supported
  | Unsupported_vcs_error
  | Unsupported_vcs_no_component

datatype error =
    TracError template "(string \<times> pyval) list"
  | AssertionError
  | AttributeError
  | KeyError string

section \<open>Providers of repositories\<close>

text \<open>
  \<^verbatim>\<open>DbRepositoryProvider.get_repositories\<close>.  The first loop collects, per id, the
  attributes with a value that is not \<^verbatim>\<open>NULL\<close>; the query keeps the rows whose name is
  one of \<open>repository_attrs\<close>.  The second loop keeps the ids that have a name and a
  directory or an alias, stores the id in the information and indexes it by name.
  Both dictionaries are traversed in insertion order.
\<close>

definition repository_attrs :: "string list" where
  "repository_attrs = [''alias'', ''description'', ''dir'', ''hidden'', ''name'', ''type'', ''url'']"

fun db_repos :: "row list \<Rightarrow> (int \<times> info) list \<Rightarrow> (int \<times> info) list" where
  "db_repos [] repos = repos"
| "db_repos ((i, n, v) # rows) repos =
     db_repos rows
       (case v of
          None \<Rightarrow> repos
        | Some s \<Rightarrow> AList.update i (AList.update n (PStr s) (dict_get repos i [])) repos)"

fun db_reponames :: "(int \<times> info) list \<Rightarrow> registry \<Rightarrow> registry" where
  "db_reponames [] reponames = reponames"
| "db_reponames ((i, info) # repos) reponames =
     db_reponames repos
       (if dict_in ''name'' info \<and> (dict_in ''dir'' info \<or> dict_in ''alias'' info)
        then (case map_of info ''name'' of
                Some (PStr n) \<Rightarrow> AList.update n (AList.update ''id'' (PInt i) info) reponames
              | _ \<Rightarrow> reponames)
        else reponames)"

definition db_get_repositories :: "row list \<Rightarrow> registry" where
  "db_get_repositories db =
     db_reponames (db_repos (filter (\<lambda>(i, n, v). n \<in> set repository_attrs) db) []) []"

text \<open>
  The providers of the extension point, in its order: the provider of the table, or any
  other provider (such as the one that reads the \<^verbatim>\<open>[repositories]\<close> section), given by
  the pairs of name and information that its \<^verbatim>\<open>get_repositories\<close> yields.
\<close>

datatype provider = DbRepositoryProvider | Provider registry

fun provider_get_repositories :: "provider \<Rightarrow> row list \<Rightarrow> registry" where
  "provider_get_repositories DbRepositoryProvider db = db_get_repositories db"
| "provider_get_repositories (Provider items) db = items"

text \<open>
  The two loops of \<^verbatim>\<open>RepositoryManager.get_all_repositories\<close>: a name that is already
  there is discarded (with a warning in the log); otherwise the information gets its name
  and, unless it has one, an id from \<open>get_repository_id\<close>, which may write to the table.
\<close>

fun add_repositories :: "registry \<Rightarrow> registry \<times> row list \<Rightarrow> registry \<times> row list" where
  "add_repositories [] acc = acc"
| "add_repositories ((reponame, info) # items) (all_repositories, db) =
     add_repositories items
       (if dict_in reponame all_repositories then (all_repositories, db)
        else (let info1 = AList.update ''name'' (PStr reponame) info
              in if dict_in ''id'' info1
                 then (AList.update reponame info1 all_repositories, db)
                 else (let (i, db') = get_repository_id db reponame
                       in (AList.update reponame (AList.update ''id'' (PInt i) info1)
                             all_repositories, db'))))"

fun merge_providers :: "provider list \<Rightarrow> registry \<times> row list \<Rightarrow> registry \<times> row list" where
  "merge_providers [] acc = acc"
| "merge_providers (p # ps) (all_repositories, db) =
     merge_providers ps
       (add_repositories (provider_get_repositories p db) (all_repositories, db))"

section \<open>Connectors and repositories\<close>

text \<open>
  A connector, by the pairs of type and priority that its \<^verbatim>\<open>get_supported_types\<close>
  yields and by its \<^verbatim>\<open>error\<close> attribute.
\<close>

record connector =
  supported_types :: "(string \<times> int) list"
  conn_error :: string

text \<open>
  The attributes that \<^verbatim>\<open>Repository.__init__\<close> sets, a flag that tells whether
  \<^verbatim>\<open>close\<close> was called, and the data \<open>r_backend\<close> that the subclass of the version
  control system keeps.
\<close>

record 'b repository =
  r_name :: string
  r_params :: info
  r_reponame :: pyval
  r_id :: pyval
  r_closed :: bool
  r_backend :: 'b

text \<open>
  The methods of \<^verbatim>\<open>Repository\<close> that a subclass provides, on its own data:
  what its constructor builds, \<^verbatim>\<open>sync\<close>, \<^verbatim>\<open>sync_changeset\<close> (with the old
  changeset that it returns, if any) and \<^verbatim>\<open>get_changeset\<close>, where \<open>None\<close> is
  \<^verbatim>\<open>NoSuchChangeset\<close>.
\<close>

type_synonym changeset_t = "(nat, int) changeset"

record 'b backend =
  b_init :: "string \<Rightarrow> string \<Rightarrow> info \<Rightarrow> 'b"
  b_sync :: "'b \<Rightarrow> 'b"
  b_sync_changeset :: "'b \<Rightarrow> pyval \<Rightarrow> 'b \<times> changeset_t option"
  b_get_changeset :: "'b \<Rightarrow> pyval \<Rightarrow> changeset_t option"

text \<open>
  \<^verbatim>\<open>Repository.__init__(self, name, params, log)\<close>: \<^verbatim>\<open>params['name']\<close> and
  \<^verbatim>\<open>params['id']\<close> raise \<^verbatim>\<open>KeyError\<close> when the key is missing.
\<close>

definition Repository_init :: "string \<Rightarrow> info \<Rightarrow> 'b \<Rightarrow> error + 'b repository" where
  "Repository_init name params b =
     (case map_of params ''name'' of
        None \<Rightarrow> Inl (KeyError ''name'')
      | Some n \<Rightarrow>
          (case map_of params ''id'' of
             None \<Rightarrow> Inl (KeyError ''id'')
           | Some i \<Rightarrow> Inr \<lparr> r_name = name, r_params = params, r_reponame = n, r_id = i,
                             r_closed = False, r_backend = b \<rparr>))"

text \<open>
  Modelled from the spec: \<^verbatim>\<open>IRepositoryConnector.get_repository(repos_type, repos_dir,
  params)\<close> has no implementation under the sources.  By the docstrings of the interface
  and of \<^verbatim>\<open>Repository.__init__\<close> it returns a new \<^verbatim>\<open>Repository\<close> for the type and the
  directory, whose name is a type-specific prefix followed by the path.
\<close>

definition connector_get_repository ::
  "'b backend \<Rightarrow> string \<Rightarrow> string \<Rightarrow> info \<Rightarrow> error + 'b repository" where
  "connector_get_repository B rtype rdir params =
     Repository_init (rtype @ '':'' @ rdir) params (b_init B rtype rdir params)"

text \<open>\<^verbatim>\<open>Repository.get_base\<close>\<close>

definition get_base :: "'b repository \<Rightarrow> string" where
  "get_base r = r_name r"

section \<open>The repository manager\<close>

text \<open>
  The state that \<^verbatim>\<open>RepositoryManager\<close> and \<^verbatim>\<open>DbRepositoryProvider\<close> work on: the
  table, the extension points and options, the three private attributes
  \<^verbatim>\<open>_all_repositories\<close>, \<^verbatim>\<open>_connectors\<close> and \<^verbatim>\<open>_cache\<close>, the repository objects
  created so far (an object is identified by its position in \<open>objects\<close>), the calls
  that the change listeners received, and the identifier of the running thread
  (\<^verbatim>\<open>threading._get_ident()\<close>).
\<close>

type_synonym listener_call = "nat \<times> string \<times> nat \<times> changeset_t \<times> changeset_t option list"

record 'b manager =
  database :: "row list"
  providers :: "provider list"
  connectors :: "connector list"
  change_listeners :: nat
  repository_type :: string
  env_path :: string
  default_label :: string
  abspath :: "string \<Rightarrow> string"
  thread :: nat
  p_all_repositories :: "registry option"
  p_connectors :: "(string \<times> connector \<times> int) list option"
  p_cache :: "(nat \<times> (string \<times> nat) list) list"
  objects :: "'b repository list"
  calls :: "listener_call list"

text \<open>\<^verbatim>\<open>RepositoryManager.get_supported_types\<close>; the list of a set, here without duplicates.\<close>

definition get_supported_types :: "'b manager \<Rightarrow> string list" where
  "get_supported_types s =
     remdups (concat (map (\<lambda>c. map fst (filter (\<lambda>(ty, prio). prio \<ge> 0) (supported_types c)))
                          (connectors s)))"

text \<open>\<^verbatim>\<open>RepositoryManager.get_all_repositories\<close>; an empty dictionary is computed again.\<close>

definition load_repositories :: "'b manager \<Rightarrow> registry \<times> 'b manager" where
  "load_repositories s =
     (let (all_repositories, db') = merge_providers (providers s) ([], database s)
      in (all_repositories, s\<lparr>database := db', p_all_repositories := Some all_repositories\<rparr>))"

definition get_all_repositories :: "'b manager \<Rightarrow> registry \<times> 'b manager" where
  "get_all_repositories s =
     (case p_all_repositories s of
        None \<Rightarrow> load_repositories s
      | Some all_repositories \<Rightarrow>
          if all_repositories = [] then load_repositories s else (all_repositories, s))"

text \<open>\<^verbatim>\<open>RepositoryManager.reload_repositories\<close>; touching the configuration is left out.\<close>

definition reload_repositories :: "'b manager \<Rightarrow> 'b manager" where
  "reload_repositories s = s\<lparr>p_cache := [], p_all_repositories := None\<rparr>"

text \<open>
  \<^verbatim>\<open>RepositoryManager._get_connector\<close>.  The table of the preferred connectors is built
  once: a connector replaces the one kept for a type only with a greater priority.
\<close>

fun keep_connector ::
  "connector \<Rightarrow> (string \<times> int) list \<Rightarrow> (string \<times> connector \<times> int) list
     \<Rightarrow> (string \<times> connector \<times> int) list" where
  "keep_connector c [] t = t"
| "keep_connector c ((ty, prio) # rest) t =
     keep_connector c rest
       (case map_of t ty of
          Some (c', prio') \<Rightarrow> if prio \<le> prio' then t else AList.update ty (c, prio) t
        | None \<Rightarrow> AList.update ty (c, prio) t)"

fun build_connectors ::
  "connector list \<Rightarrow> (string \<times> connector \<times> int) list \<Rightarrow> (string \<times> connector \<times> int) list" where
  "build_connectors [] t = t"
| "build_connectors (c # cs) t = build_connectors cs (keep_connector c (supported_types c) t)"

definition connector_table :: "'b manager \<Rightarrow> (string \<times> connector \<times> int) list" where
  "connector_table s =
     (case p_connectors s of
        None \<Rightarrow> build_connectors (connectors s) []
      | Some t \<Rightarrow> t)"

text \<open>\<^verbatim>\<open>rtype in self._connectors\<close> and \<^verbatim>\<open>self._connectors[rtype]\<close>; the keys are strings.\<close>

definition lookup_connector ::
  "(string \<times> connector \<times> int) list \<Rightarrow> pyval \<Rightarrow> (connector \<times> int) option" where
  "lookup_connector t rtype = (case rtype of PStr ty \<Rightarrow> map_of t ty | _ \<Rightarrow> None)"

definition get_connector :: "pyval \<Rightarrow> 'b manager \<Rightarrow> (error + connector) \<times> 'b manager" where
  "get_connector rtype s =
     (let t = connector_table s;
          s' = s\<lparr>p_connectors := Some t\<rparr>
      in case lookup_connector t rtype of
           Some (c, prio) \<Rightarrow>
             if prio \<ge> 0 then (Inr c, s')
             else (Inl (TracError Unsupported_vcs_error
                          [(''name'', rtype), (''error'', PStr (conn_error c))]), s')
         | None \<Rightarrow> (Inl (TracError Unsupported_vcs_no_component [(''name'', rtype)]), s'))"

text \<open>
  \<^verbatim>\<open>RepositoryManager.get_repository\<close>, from \<^verbatim>\<open>rdir = repoinfo.get('dir')\<close> on: the
  name and the information are the ones that the alias resolution left.  The dictionary
  of the thread is created when missing, also when the call then raises.
  \<open>new_repository\<close> is the branch \<^verbatim>\<open>if not repos\<close>, for a directory that is a string:
  the directory is made absolute, the connector of the type builds the repository, and
  the repository is stored in the dictionary \<open>repositories\<close> of the thread.
\<close>

definition new_repository ::
  "'b backend \<Rightarrow> string \<Rightarrow> info \<Rightarrow> string \<Rightarrow> pyval \<Rightarrow> (string \<times> nat) list \<Rightarrow> 'b manager
     \<Rightarrow> (error + nat option) \<times> 'b manager" where
  "new_repository B reponame repoinfo d rtype repositories s1 =
     (let d' = (if isabs d then d else path_join (env_path s1) d)
      in case get_connector rtype s1 of
           (Inl e, s2) \<Rightarrow> (Inl e, s2)
         | (Inr connector, s2) \<Rightarrow>
             (case rtype of
                PStr ty \<Rightarrow>
                  (case connector_get_repository B ty d' repoinfo of
                     Inl e \<Rightarrow> (Inl e, s2)
                   | Inr obj \<Rightarrow>
                       (let repos = length (objects s2)
                        in (Inr (Some repos),
                            s2\<lparr>objects := objects s2 @ [obj],
                               p_cache := AList.update (thread s2)
                                 (AList.update reponame repos repositories) (p_cache s2)\<rparr>)))
              | _ \<Rightarrow> (Inl AttributeError, s2)))"

text \<open>
  The dictionary of the running thread in the cache, created empty when missing:
  \<^verbatim>\<open>repositories = self._cache[tid]\<close> or \<^verbatim>\<open>repositories = self._cache[tid] = {}\<close>.
\<close>

definition thread_repositories :: "'b manager \<Rightarrow> (string \<times> nat) list \<times> 'b manager" where
  "thread_repositories s =
     (let tid = thread s
      in if dict_in tid (p_cache s) then (dict_get (p_cache s) tid [], s)
         else ([], s\<lparr>p_cache := AList.update tid [] (p_cache s)\<rparr>))"

definition get_repository_dir ::
  "'b backend \<Rightarrow> string \<Rightarrow> info \<Rightarrow> 'b manager \<Rightarrow> (error + nat option) \<times> 'b manager" where
  "get_repository_dir B reponame repoinfo s =
     (let rdir = info_get repoinfo ''dir''
      in if \<not> truthy rdir then (Inr None, s)
         else
           (let rtype = py_or (info_get repoinfo ''type'') (PStr (repository_type s));
                (repositories, s1) = thread_repositories s
            in case map_of repositories reponame of
                 Some repos \<Rightarrow> (Inr (Some repos), s1)
               | None \<Rightarrow>
                   (case rdir of
                      PStr d \<Rightarrow> new_repository B reponame repoinfo d rtype repositories s1
                    | _ \<Rightarrow> (Inl AttributeError, s1))))"

text \<open>
  \<^verbatim>\<open>RepositoryManager.get_repository\<close>.  The argument is a string (\<^verbatim>\<open>None\<close> is turned
  into the empty string by \<^verbatim>\<open>reponame or ''\<close>).  An alias is followed once; an alias that
  is not a string names no entry of the registry, whose keys are strings.  The result is
  the object, \<open>None\<close> for Python's \<^verbatim>\<open>None\<close>, or the exception raised.
\<close>

definition get_repository ::
  "'b backend \<Rightarrow> string \<Rightarrow> 'b manager \<Rightarrow> (error + nat option) \<times> 'b manager" where
  "get_repository B reponame s =
     (let (all_repositories, s1) = get_all_repositories s;
          repoinfo = dict_get all_repositories reponame []
      in case map_of repoinfo ''alias'' of
           None \<Rightarrow> get_repository_dir B reponame repoinfo s1
         | Some alias \<Rightarrow>
             (let (all_repositories2, s2) = get_all_repositories s1
              in case alias of
                   PStr a \<Rightarrow> get_repository_dir B a (dict_get all_repositories2 a []) s2
                 | _ \<Rightarrow> get_repository_dir B [] [] s2))"

text \<open>
  \<^verbatim>\<open>RepositoryManager.get_repository_by_path\<close>.  First the choice of the name and of
  the remaining path among the names of the registry, then the whole method.  The
  matches are pairs of the length of the stripped name with its slash and the name;
  after sorting, the last one is taken.
\<close>

definition path_matches :: "string list \<Rightarrow> string \<Rightarrow> (nat \<times> string) list" where
  "path_matches reponames path =
     map (\<lambda>reponame. (length (strip_slash reponame @ ''/''), reponame))
       (filter (\<lambda>reponame. startswith path (strip_slash reponame @ ''/'')) reponames)"

definition split_repository_path :: "string list \<Rightarrow> string \<Rightarrow> string \<times> string" where
  "split_repository_path reponames path =
     (let path1 = (if path \<noteq> [] then strip_slash path @ ''/'' else ''/'');
          matches = path_matches reponames path1;
          (reponame, path2) =
             (if matches \<noteq> []
              then (let (len, reponame) = last (sort matches) in (reponame, drop len path1))
              else ([], path1))
      in (reponame, if rstrip_slash path2 \<noteq> [] then rstrip_slash path2 else ''/''))"

definition get_repository_by_path ::
  "'b backend \<Rightarrow> string \<Rightarrow> 'b manager \<Rightarrow> (error + string \<times> nat option \<times> string) \<times> 'b manager" where
  "get_repository_by_path B path s =
     (let (all_repositories, s1) = get_all_repositories s;
          (reponame, path') = split_repository_path (map fst all_repositories) path
      in case get_repository B reponame s1 of
           (Inl e, s2) \<Rightarrow> (Inl e, s2)
         | (Inr repos, s2) \<Rightarrow> (Inr (reponame, repos, path'), s2))"

text \<open>
  \<^verbatim>\<open>RepositoryManager.shutdown\<close>: nothing happens for a thread identifier that is
  \<^verbatim>\<open>None\<close> or zero; the identifier must be the one of the running thread; the
  dictionary of the thread is removed from the cache and every repository in it is
  closed.
\<close>

fun close_all :: "nat list \<Rightarrow> 'b repository list \<Rightarrow> 'b repository list" where
  "close_all [] objs = objs"
| "close_all (repos # rest) objs =
     close_all rest
       (if repos < length objs then objs[repos := (objs ! repos)\<lparr>r_closed := True\<rparr>] else objs)"

definition shutdown :: "nat option \<Rightarrow> 'b manager \<Rightarrow> (error + unit) \<times> 'b manager" where
  "shutdown tid s =
     (case tid of
        None \<Rightarrow> (Inr (), s)
      | Some t \<Rightarrow>
          if t = 0 then (Inr (), s)
          else if t \<noteq> thread s then (Inl AssertionError, s)
          else (let repositories = dict_get (p_cache s) t []
                in (Inr (), s\<lparr>p_cache := AList.delete t (p_cache s),
                              objects := close_all (map snd repositories) (objects s)\<rparr>)))"

section \<open>Notification of changes\<close>

text \<open>
  \<^verbatim>\<open>RepositoryManager.get_repositories_by_dir\<close>: the loop over the items of the
  registry, with the directory already joined with the empty component.
  \<^verbatim>\<open>os.path.normcase\<close> is the identity on POSIX; a directory that is not a string has
  no string methods.
\<close>

fun repositories_by_dir ::
  "'b backend \<Rightarrow> string \<Rightarrow> registry \<Rightarrow> nat list \<Rightarrow> 'b manager
     \<Rightarrow> (error + nat list) \<times> 'b manager" where
  "repositories_by_dir B directory [] repositories s = (Inr repositories, s)"
| "repositories_by_dir B directory ((reponame, repoinfo) # items) repositories s =
     (let dir = info_get repoinfo ''dir''
      in if \<not> truthy dir then repositories_by_dir B directory items repositories s
         else (case dir of
                 PStr d \<Rightarrow>
                   if startswith (path_join d []) directory
                   then (case get_repository B reponame s of
                           (Inl e, s') \<Rightarrow> (Inl e, s')
                         | (Inr None, s') \<Rightarrow> repositories_by_dir B directory items repositories s'
                         | (Inr (Some repos), s') \<Rightarrow>
                             repositories_by_dir B directory items (repositories @ [repos]) s')
                   else repositories_by_dir B directory items repositories s
               | _ \<Rightarrow> (Inl AttributeError, s)))"

definition get_repositories_by_dir ::
  "'b backend \<Rightarrow> string \<Rightarrow> 'b manager \<Rightarrow> (error + nat list) \<times> 'b manager" where
  "get_repositories_by_dir B directory s =
     (let (all_repositories, s1) = get_all_repositories s
      in repositories_by_dir B (path_join directory []) all_repositories [] s1)"

text \<open>
  \<^verbatim>\<open>RepositoryManager.get_real_repositories\<close>: a \<^verbatim>\<open>TracError\<close> skips the name, any
  other exception leaves the method.  The set is the list of its elements without
  duplicates.
\<close>

fun real_repositories ::
  "'b backend \<Rightarrow> string list \<Rightarrow> nat list \<Rightarrow> 'b manager \<Rightarrow> (error + nat list) \<times> 'b manager" where
  "real_repositories B [] repositories s = (Inr (remdups repositories), s)"
| "real_repositories B (reponame # reponames) repositories s =
     (case get_repository B reponame s of
        (Inl (TracError t kw), s') \<Rightarrow> real_repositories B reponames repositories s'
      | (Inl e, s') \<Rightarrow> (Inl e, s')
      | (Inr None, s') \<Rightarrow> real_repositories B reponames repositories s'
      | (Inr (Some repos), s') \<Rightarrow> real_repositories B reponames (repositories @ [repos]) s')"

definition get_real_repositories ::
  "'b backend \<Rightarrow> 'b manager \<Rightarrow> (error + nat list) \<times> 'b manager" where
  "get_real_repositories B s =
     (let (all_repositories, s1) = get_all_repositories s
      in real_repositories B (map fst all_repositories) [] s1)"

text \<open>
  The first part of \<^verbatim>\<open>RepositoryManager.notify\<close>: the repositories to notify, by name
  and base, or by directory.
\<close>

definition notify_repositories ::
  "'b backend \<Rightarrow> string \<Rightarrow> 'b manager \<Rightarrow> (error + nat list) \<times> 'b manager" where
  "notify_repositories B reponame s =
     (case get_repository B reponame s of
        (Inl e, s1) \<Rightarrow> (Inl e, s1)
      | (Inr found, s1) \<Rightarrow>
          (case (case found of
                   Some repos \<Rightarrow> (Inr ([], get_base (objects s1 ! repos)), s1)
                 | None \<Rightarrow>
                     (case get_repositories_by_dir B (abspath s1 reponame) s1 of
                        (Inl e, s2) \<Rightarrow> (Inl e, s2)
                      | (Inr repositories, s2) \<Rightarrow>
                          (Inr (repositories, if repositories \<noteq> [] then [] else reponame), s2))) of
             (Inl e, s2) \<Rightarrow> (Inl e, s2)
           | (Inr (repositories, base), s2) \<Rightarrow>
               if base \<noteq> []
               then (case get_real_repositories B s2 of
                       (Inl e, s3) \<Rightarrow> (Inl e, s3)
                     | (Inr real, s3) \<Rightarrow>
                         (Inr (filter (\<lambda>r. get_base (objects s3 ! r) = base) real), s3))
               else (Inr repositories, s2)))"

text \<open>
  The calls of the change listeners for one changeset: \<^verbatim>\<open>getattr(listener, event)\<close>
  finds the two methods of \<^verbatim>\<open>IRepositoryChangeListener\<close> only.  A listener is known by
  its position in the extension point, and a call is recorded in \<open>calls\<close>.
\<close>

definition call_listeners ::
  "string \<Rightarrow> nat \<Rightarrow> changeset_t \<Rightarrow> changeset_t option list \<Rightarrow> 'b manager
     \<Rightarrow> (error + unit) \<times> 'b manager" where
  "call_listeners event repos cset args s =
     (if change_listeners s = 0 then (Inr (), s)
      else if event \<noteq> ''changeset_added'' \<and> event \<noteq> ''changeset_modified''
      then (Inl AttributeError, s)
      else (Inr (), s\<lparr>calls := calls s @
              map (\<lambda>listener. (listener, event, repos, cset, args)) [0..<change_listeners s]\<rparr>))"

text \<open>A method of the subclass, run on the data of the object \<open>repos\<close>.\<close>

definition backend_of :: "'b manager \<Rightarrow> nat \<Rightarrow> 'b" where
  "backend_of s repos = r_backend (objects s ! repos)"

definition set_backend :: "nat \<Rightarrow> 'b \<Rightarrow> 'b manager \<Rightarrow> 'b manager" where
  "set_backend repos b s = s\<lparr>objects := (objects s)[repos := (objects s ! repos)\<lparr>r_backend := b\<rparr>]\<rparr>"

text \<open>
  The loop of \<^verbatim>\<open>notify\<close> over the revisions, for one repository: a changeset that is
  still missing after \<^verbatim>\<open>sync_changeset\<close> is skipped.  The variable \<^verbatim>\<open>repos\<close> is
  bound to the object, whose data is \<open>b\<close>; a method that changes the data stores it in
  the object.
\<close>

fun notify_revs ::
  "'b backend \<Rightarrow> string \<Rightarrow> nat \<Rightarrow> 'b \<Rightarrow> pyval list \<Rightarrow> 'b manager
     \<Rightarrow> (error + unit) \<times> 'b manager" where
  "notify_revs B event repos b [] s = (Inr (), s)"
| "notify_revs B event repos b (revision # revs) s =
     (let (args, b1) =
            (if event = ''changeset_modified''
             then (let (b', old) = b_sync_changeset B b revision in ([old], b'))
             else ([], b));
          s1 = set_backend repos b1 s
      in case b_get_changeset B b1 revision of
           Some cset \<Rightarrow>
             (case call_listeners event repos cset args s1 of
                (Inl e, s2) \<Rightarrow> (Inl e, s2)
              | (Inr u, s2) \<Rightarrow> notify_revs B event repos b1 revs s2)
         | None \<Rightarrow>
             (let b2 = fst (b_sync_changeset B b1 revision);
                  s2 = set_backend repos b2 s1
              in case b_get_changeset B b2 revision of
                   None \<Rightarrow> notify_revs B event repos b2 revs s2
                 | Some cset \<Rightarrow>
                     (case call_listeners event repos cset args s2 of
                        (Inl e, s3) \<Rightarrow> (Inl e, s3)
                      | (Inr u, s3) \<Rightarrow> notify_revs B event repos b2 revs s3)))"

text \<open>The loop of \<^verbatim>\<open>notify\<close> over the repositories, each synchronised first.\<close>

fun notify_all ::
  "'b backend \<Rightarrow> string \<Rightarrow> nat list \<Rightarrow> pyval list \<Rightarrow> 'b manager \<Rightarrow> (error + unit) \<times> 'b manager" where
  "notify_all B event [] revs s = (Inr (), s)"
| "notify_all B event (repos # repositories) revs s =
     (let b = b_sync B (backend_of s repos)
      in case notify_revs B event repos b revs (set_backend repos b s) of
           (Inl e, s1) \<Rightarrow> (Inl e, s1)
         | (Inr u, s1) \<Rightarrow> notify_all B event repositories revs s1)"

text \<open>
  \<^verbatim>\<open>RepositoryManager.notify\<close>.  The repositories are sorted by their
  \<^verbatim>\<open>reponame\<close>, which is a string for every repository that \<open>get_repository\<close> builds.
\<close>

definition reponame_key :: "'b manager \<Rightarrow> nat \<Rightarrow> string" where
  "reponame_key s repos = (case r_reponame (objects s ! repos) of PStr n \<Rightarrow> n | _ \<Rightarrow> [])"

definition notify ::
  "'b backend \<Rightarrow> string \<Rightarrow> string \<Rightarrow> pyval list \<Rightarrow> 'b manager \<Rightarrow> (error + unit) \<times> 'b manager" where
  "notify B event reponame revs s =
     (case notify_repositories B reponame s of
        (Inl e, s1) \<Rightarrow> (Inl e, s1)
      | (Inr repositories, s1) \<Rightarrow>
          if repositories = [] then (Inr (), s1)
          else notify_all B event (sort_key (reponame_key s1) repositories) revs s1)"

section \<open>The provider of the table\<close>

text \<open>
  \<^verbatim>\<open>DbRepositoryProvider.add_repository(reponame, dir, type_=None)\<close> and
  \<^verbatim>\<open>DbRepositoryProvider.add_alias(reponame, target)\<close>.  The optional type is \<open>None\<close>
  when it is not given; \<open>add_repository_rows\<close> is the transaction and the reload that
  end \<^verbatim>\<open>add_repository\<close>, with \<^verbatim>\<open>type_ or ''\<close> for the type.
\<close>

definition add_repository_rows :: "string \<Rightarrow> string \<Rightarrow> string \<Rightarrow> 'b manager \<Rightarrow> 'b manager" where
  "add_repository_rows reponame dir ty s =
     (let (i, db1) = get_repository_id (database s) reponame;
          db2 = db1 @ [(i, ''dir'', Some dir), (i, ''type'', Some ty)]
      in reload_repositories (s\<lparr>database := db2\<rparr>))"

definition add_repository ::
  "string \<Rightarrow> string \<Rightarrow> string option \<Rightarrow> 'b manager \<Rightarrow> (error + unit) \<times> 'b manager" where
  "add_repository reponame dir ty s =
     (if \<not> isabs dir then (Inl (TracError Directory_must_be_absolute []), s)
      else
        (let reponame1 = (if is_default (default_label s) reponame then [] else reponame)
         in case ty of
              None \<Rightarrow> (Inr (), add_repository_rows reponame1 dir [] s)
            | Some t \<Rightarrow>
                if t \<noteq> [] \<and> t \<notin> set (get_supported_types s)
                then (Inl (TracError Repository_type_not_supported [(''type'', PStr t)]), s)
                else (Inr (), add_repository_rows reponame1 dir t s)))"

definition add_alias :: "string \<Rightarrow> string \<Rightarrow> 'b manager \<Rightarrow> 'b manager" where
  "add_alias reponame target s =
     (let reponame1 = (if is_default (default_label s) reponame then [] else reponame);
          target1 = (if is_default (default_label s) target then [] else target);
          (i, db1) = get_repository_id (database s) reponame1;
          db2 = db1 @ [(i, ''dir'', None), (i, ''alias'', Some target1)]
      in reload_repositories (s\<lparr>database := db2\<rparr>))"

section \<open>Notions used in the statements\<close>

text \<open>
  The information that the lookup of a name ends at: the entry of the name or, when it
  has an alias, the entry of the alias, followed once; \<^verbatim>\<open>{}\<close> when there is no entry.
  \<open>resolved_name\<close> is the name of that entry.
\<close>

definition resolved_name :: "registry \<Rightarrow> string \<Rightarrow> pyval" where
  "resolved_name all_repositories reponame =
     (case map_of (dict_get all_repositories reponame []) ''alias'' of
        None \<Rightarrow> PStr reponame
      | Some alias \<Rightarrow> alias)"

definition resolved_info :: "registry \<Rightarrow> string \<Rightarrow> info" where
  "resolved_info all_repositories reponame =
     (case resolved_name all_repositories reponame of
        PStr n \<Rightarrow> dict_get all_repositories n []
      | _ \<Rightarrow> [])"

text \<open>
  A backend in which every method is the one of the base class \<^verbatim>\<open>Repository\<close>
  (\<^verbatim>\<open>sync\<close> does nothing, \<^verbatim>\<open>sync_changeset\<close> returns \<^verbatim>\<open>None\<close>) and no changeset
  exists, and a manager with one connector for \<^verbatim>\<open>svn\<close>, two listeners and the provider
  of the table, before anything is loaded.
\<close>

definition plain_backend :: "unit backend" where
  "plain_backend =
     \<lparr> b_init = (\<lambda>rtype rdir params. ()), b_sync = (\<lambda>b. b),
       b_sync_changeset = (\<lambda>b revision. (b, None)), b_get_changeset = (\<lambda>b revision. None) \<rparr>"

definition svn_connector :: connector where
  "svn_connector = \<lparr> supported_types = [(''svn'', 0)], conn_error = [] \<rparr>"

definition new_manager :: "row list \<Rightarrow> unit manager" where
  "new_manager rows =
     \<lparr> database = rows, providers = [DbRepositoryProvider], connectors = [svn_connector],
       change_listeners = 2, repository_type = ''svn'', env_path = ''/srv/trac'',
       default_label = ''(default)'', abspath = (\<lambda>p. path_join ''/srv/trac'' p), thread = 1,
       p_all_repositories = None, p_connectors = None, p_cache = [], objects = [], calls = [] \<rparr>"

text \<open>The rows that \<^verbatim>\<open>add_alias('A', 'B')\<close> leaves in an empty table.\<close>

definition alias_rows :: "row list" where
  "alias_rows = [(1, ''name'', Some ''A''), (1, ''dir'', None), (1, ''alias'', Some ''B'')]"

text \<open>
  The table of the preferred connectors is either not built yet or the one that
  \<open>get_connector\<close> builds from the connectors of the extension point.
\<close>

definition connectors_built :: "'b manager \<Rightarrow> bool" where
  "connectors_built s =
     (p_connectors s = None \<or> p_connectors s = Some (build_connectors (connectors s) []))"

text \<open>
  The type that \<open>get_repository\<close> asks a connector for: the type of the entry that the
  lookup ends at or, when that is missing or empty, the default type of the option
  \<^verbatim>\<open>[trac] repository_type\<close>.
\<close>

definition configured_type :: "registry \<Rightarrow> string \<Rightarrow> 'b manager \<Rightarrow> pyval" where
  "configured_type all_repositories reponame s =
     py_or (info_get (resolved_info all_repositories reponame) ''type'')
           (PStr (repository_type s))"

text \<open>The rows of a repository \<^verbatim>\<open>trunk\<close> of type \<^verbatim>\<open>hg\<close>, and of type \<^verbatim>\<open>svn\<close>.\<close>

definition hg_rows :: "row list" where
  "hg_rows = [(1, ''name'', Some ''trunk''), (1, ''dir'', Some ''/srv/hg/trunk''),
              (1, ''type'', Some ''hg'')]"

definition svn_rows :: "row list" where
  "svn_rows = [(1, ''name'', Some ''trunk''), (1, ''dir'', Some ''/srv/svn/trunk''),
               (1, ''type'', Some ''svn'')]"



text \<open>A run of calls of \<open>get_repository\<close> in the running thread, for any names.\<close>

fun get_repository_calls :: "'b backend \<Rightarrow> string list \<Rightarrow> 'b manager \<Rightarrow> 'b manager" where
  "get_repository_calls B [] s = s"
| "get_repository_calls B (n # ns) s = get_repository_calls B ns (snd (get_repository B n s))"

text \<open>
  Every object from position \<open>N\<close> on is open, and the running thread has only such
  objects in its cache.
\<close>

definition constructed_since :: "nat \<Rightarrow> 'b manager \<Rightarrow> bool" where
  "constructed_since N s =
     (N \<le> length (objects s)
      \<and> (\<forall>ob. N \<le> ob \<and> ob < length (objects s) \<longrightarrow> \<not> r_closed (objects s ! ob))
      \<and> (\<forall>ob \<in> snd ` set (dict_get (p_cache s) (thread s) []).
            N \<le> ob \<and> ob < length (objects s)))"

text \<open>The manager after thread 1 has looked up the repository \<^verbatim>\<open>trunk\<close> of \<open>svn_rows\<close>.\<close>

definition trunk_manager :: "unit manager" where
  "trunk_manager = snd (get_repository plain_backend ''trunk'' (new_manager svn_rows))"

text \<open>
  The path that \<open>get_repository_by_path\<close> compares with the names, a name that matches
  it, and the path that is returned for what remains.
\<close>

definition normalized_path :: "string \<Rightarrow> string" where
  "normalized_path path = (if path \<noteq> [] then strip_slash path @ ''/'' else ''/'')"

definition name_matches :: "string \<Rightarrow> string \<Rightarrow> bool" where
  "name_matches path1 reponame = startswith path1 (strip_slash reponame @ ''/'')"

definition remaining_path :: "string \<Rightarrow> string" where
  "remaining_path path2 = (if rstrip_slash path2 \<noteq> [] then rstrip_slash path2 else ''/'')"

text \<open>
  The rows of a default repository and of a repository \<^verbatim>\<open>su\<close>, and of a default
  repository and a repository \<^verbatim>\<open>sub\<close>.
\<close>

definition su_rows :: "row list" where
  "su_rows =
     [(1, ''name'', Some ''''), (1, ''dir'', Some ''/srv/svn/main''), (1, ''type'', Some ''svn''),
      (2, ''name'', Some ''su''), (2, ''dir'', Some ''/srv/svn/su''), (2, ''type'', Some ''svn'')]"

definition sub_rows :: "row list" where
  "sub_rows =
     [(1, ''name'', Some ''''), (1, ''dir'', Some ''/srv/svn/main''), (1, ''type'', Some ''svn''),
      (2, ''name'', Some ''sub''), (2, ''dir'', Some ''/srv/svn/sub''), (2, ''type'', Some ''svn'')]"

text \<open>
  The repository of a call of a listener, and a revision that a repository with the
  data \<open>b\<close> is missing: \<^verbatim>\<open>get_changeset\<close> raises \<^verbatim>\<open>NoSuchChangeset\<close> after
  \<^verbatim>\<open>sync\<close>, and again after \<^verbatim>\<open>sync_changeset\<close>.
\<close>

definition call_repos :: "listener_call \<Rightarrow> nat" where
  "call_repos c = fst (snd (snd c))"

definition rev_missing :: "'b backend \<Rightarrow> 'b \<Rightarrow> pyval \<Rightarrow> bool" where
  "rev_missing B b revision =
     (b_get_changeset B (b_sync B b) revision = None
      \<and> b_get_changeset B (fst (b_sync_changeset B (b_sync B b) revision)) revision = None)"

text \<open>
  A backend of scoped repositories, whose data is the name of the repository: every
  revision has a changeset in the repository \<^verbatim>\<open>branches\<close> and none in the others.
  The rows are those of two repositories \<^verbatim>\<open>trunk\<close> and \<^verbatim>\<open>branches\<close> of one
  directory.
\<close>

definition scoped_backend :: "string backend" where
  "scoped_backend =
     \<lparr> b_init = (\<lambda>rtype rdir params. case map_of params ''name'' of Some (PStr n) \<Rightarrow> n | _ \<Rightarrow> []),
       b_sync = (\<lambda>b. b),
       b_sync_changeset = (\<lambda>b revision. (b, None)),
       b_get_changeset = (\<lambda>b revision.
          if b = ''branches''
          then Some \<lparr> cs_repos = 0, cs_rev = revision, cs_message = PStr [], cs_author = PStr [],
                      cs_date = 0 \<rparr>
          else None) \<rparr>"

definition scoped_rows :: "row list" where
  "scoped_rows =
     [(1, ''name'', Some ''trunk''), (1, ''dir'', Some ''/srv/svn/x''), (1, ''type'', Some ''svn''),
      (2, ''name'', Some ''branches''), (2, ''dir'', Some ''/srv/svn/x''), (2, ''type'', Some ''svn'')]"

definition scoped_manager :: "string manager" where
  "scoped_manager =
     \<lparr> database = scoped_rows, providers = [DbRepositoryProvider], connectors = [svn_connector],
       change_listeners = 2, repository_type = ''svn'', env_path = ''/srv/trac'',
       default_label = ''(default)'', abspath = (\<lambda>p. path_join ''/srv/trac'' p), thread = 1,
       p_all_repositories = None, p_connectors = None, p_cache = [], objects = [], calls = [] \<rparr>"

section \<open>Lemmas on the registry and the lookup\<close>

lemma load_repositories_fields:
  "load_repositories s = (a, s1) \<Longrightarrow>
     p_all_repositories s1 = Some a \<and> p_cache s1 = p_cache s \<and> objects s1 = objects s
     \<and> p_connectors s1 = p_connectors s \<and> thread s1 = thread s \<and> connectors s1 = connectors s
     \<and> providers s1 = providers s \<and> repository_type s1 = repository_type s
     \<and> env_path s1 = env_path s \<and> calls s1 = calls s \<and> change_listeners s1 = change_listeners s
     \<and> default_label s1 = default_label s \<and> abspath s1 = abspath s"
  by (auto simp: load_repositories_def split: prod.splits)

lemma get_all_repositories_fields:
  "get_all_repositories s = (a, s1) \<Longrightarrow>
     p_all_repositories s1 = Some a \<and> p_cache s1 = p_cache s \<and> objects s1 = objects s
     \<and> p_connectors s1 = p_connectors s \<and> thread s1 = thread s \<and> connectors s1 = connectors s
     \<and> providers s1 = providers s \<and> repository_type s1 = repository_type s
     \<and> env_path s1 = env_path s \<and> calls s1 = calls s \<and> change_listeners s1 = change_listeners s
     \<and> default_label s1 = default_label s \<and> abspath s1 = abspath s"
  unfolding get_all_repositories_def
  by (cases "p_all_repositories s") (auto dest: load_repositories_fields split: if_splits)

lemma get_all_repositories_again:
  "get_all_repositories s = (a, s1) \<Longrightarrow> a \<noteq> [] \<Longrightarrow> get_all_repositories s1 = (a, s1)"
  using get_all_repositories_fields [of s a s1] by (simp add: get_all_repositories_def)

lemma get_repository_dir_no_dir:
  "\<not> truthy (info_get repoinfo ''dir'') \<Longrightarrow> get_repository_dir B reponame repoinfo s = (Inr None, s)"
  by (simp add: get_repository_dir_def)

lemma dict_get_alias_nonempty:
  "map_of (dict_get a reponame []) k = Some v \<Longrightarrow> a \<noteq> []"
  by (auto simp: dict_get_def)

lemma get_repository_unfold:
  assumes "get_all_repositories s = (a, s1)"
  shows "get_repository B reponame s =
     (case map_of (dict_get a reponame []) ''alias'' of
        None \<Rightarrow> get_repository_dir B reponame (dict_get a reponame []) s1
      | Some (PStr t) \<Rightarrow> get_repository_dir B t (dict_get a t []) s1
      | Some _ \<Rightarrow> (Inr None, s1))"
proof (cases "map_of (dict_get a reponame []) ''alias''")
  case None
  then show ?thesis using assms by (simp add: get_repository_def)
next
  case (Some v)
  then have "a \<noteq> []" by (rule dict_get_alias_nonempty)
  then have again: "get_all_repositories s1 = (a, s1)"
    using assms by (rule get_all_repositories_again [rotated])
  show ?thesis using assms Some again
    by (cases v) (simp_all add: get_repository_def get_repository_dir_def info_get_def)
qed

lemma get_repository_resolved:
  assumes "get_all_repositories s = (a, s1)"
  shows "get_repository B reponame s =
     (case resolved_name a reponame of
        PStr n \<Rightarrow> get_repository_dir B n (resolved_info a reponame) s1
      | _ \<Rightarrow> (Inr None, s1))"
  unfolding get_repository_unfold [OF assms] resolved_info_def resolved_name_def
  by (auto split: option.splits pyval.splits)

lemma alias_rows_registry:
  "fst (get_all_repositories (new_manager alias_rows)) =
     [(''A'', [(''name'', PStr ''A''), (''alias'', PStr ''B''), (''id'', PInt 1)])]"
  by (simp add: get_all_repositories_def load_repositories_def new_manager_def alias_rows_def
        db_get_repositories_def repository_attrs_def dict_get_def dict_in_def)

lemma keep_connector_ge:
  "map_of t ty = Some (c0, p0) \<Longrightarrow>
     \<exists>c1 p1. map_of (keep_connector c pairs t) ty = Some (c1, p1) \<and> p0 \<le> p1"
proof (induction pairs arbitrary: t c0 p0)
  case Nil
  then show ?case by simp
next
  case (Cons pr pairs)
  obtain ty' p' where pr: "pr = (ty', p')" by (cases pr)
  let ?t' = "(case map_of t ty' of
          Some (c', prio') \<Rightarrow> if p' \<le> prio' then t else AList.update ty' (c, p') t
        | None \<Rightarrow> AList.update ty' (c, p') t)"
  have "\<exists>c1 p1. map_of ?t' ty = Some (c1, p1) \<and> p0 \<le> p1"
    using Cons.prems by (auto simp: update_conv' split: option.splits)
  then obtain c1 p1 where 1: "map_of ?t' ty = Some (c1, p1)" and 2: "p0 \<le> p1" by blast
  from Cons.IH [OF 1] obtain c2 p2 where
    "map_of (keep_connector c pairs ?t') ty = Some (c2, p2)" "p1 \<le> p2" by blast
  with 2 show ?case unfolding pr by (intro exI [of _ c2] exI [of _ p2]) simp
qed

lemma keep_connector_in:
  "(ty, p) \<in> set pairs \<Longrightarrow>
     \<exists>c1 p1. map_of (keep_connector c pairs t) ty = Some (c1, p1) \<and> p \<le> p1"
proof (induction pairs arbitrary: t)
  case Nil
  then show ?case by simp
next
  case (Cons pr pairs)
  obtain ty' p' where pr: "pr = (ty', p')" by (cases pr)
  let ?t' = "(case map_of t ty' of
          Some (c', prio') \<Rightarrow> if p' \<le> prio' then t else AList.update ty' (c, p') t
        | None \<Rightarrow> AList.update ty' (c, p') t)"
  show ?case
  proof (cases "(ty, p) = pr")
    case True
    then have "\<exists>c1 p1. map_of ?t' ty = Some (c1, p1) \<and> p \<le> p1"
      using pr by (auto simp: update_conv' split: option.splits)
    then obtain c1 p1 where 1: "map_of ?t' ty = Some (c1, p1)" and 2: "p \<le> p1" by blast
    from keep_connector_ge [OF 1, of c pairs] obtain c2 p2 where
      "map_of (keep_connector c pairs ?t') ty = Some (c2, p2)" "p1 \<le> p2" by blast
    with 2 show ?thesis unfolding pr by (intro exI [of _ c2] exI [of _ p2]) simp
  next
    case False
    then have "(ty, p) \<in> set pairs" using Cons.prems by simp
    from Cons.IH [OF this, of ?t'] show ?thesis unfolding pr by simp
  qed
qed

lemma keep_connector_from:
  "map_of (keep_connector c pairs t) ty = Some (c1, p1) \<Longrightarrow>
     map_of t ty = Some (c1, p1) \<or> (ty, p1) \<in> set pairs"
proof (induction pairs arbitrary: t)
  case Nil
  then show ?case by simp
next
  case (Cons pr pairs)
  obtain ty' p' where pr: "pr = (ty', p')" by (cases pr)
  let ?t' = "(case map_of t ty' of
          Some (c', prio') \<Rightarrow> if p' \<le> prio' then t else AList.update ty' (c, p') t
        | None \<Rightarrow> AList.update ty' (c, p') t)"
  from Cons.prems have "map_of (keep_connector c pairs ?t') ty = Some (c1, p1)"
    unfolding pr by simp
  from Cons.IH [OF this] have "map_of ?t' ty = Some (c1, p1) \<or> (ty, p1) \<in> set pairs" .
  then show ?case unfolding pr
    by (auto simp: update_conv' split: option.splits if_splits)
qed

lemma build_connectors_ge:
  "map_of t ty = Some (c0, p0) \<Longrightarrow>
     \<exists>c1 p1. map_of (build_connectors cs t) ty = Some (c1, p1) \<and> p0 \<le> p1"
proof (induction cs arbitrary: t c0 p0)
  case Nil
  then show ?case by simp
next
  case (Cons c cs)
  from keep_connector_ge [OF Cons.prems, of c "supported_types c"] obtain c1 p1 where
    1: "map_of (keep_connector c (supported_types c) t) ty = Some (c1, p1)" and 2: "p0 \<le> p1"
    by blast
  from Cons.IH [OF 1] obtain c2 p2 where
    "map_of (build_connectors cs (keep_connector c (supported_types c) t)) ty = Some (c2, p2)"
    "p1 \<le> p2" by blast
  with 2 show ?case by (intro exI [of _ c2] exI [of _ p2]) simp
qed

lemma build_connectors_in:
  "c \<in> set cs \<Longrightarrow> (ty, p) \<in> set (supported_types c) \<Longrightarrow>
     \<exists>c1 p1. map_of (build_connectors cs t) ty = Some (c1, p1) \<and> p \<le> p1"
proof (induction cs arbitrary: t)
  case Nil
  then show ?case by simp
next
  case (Cons c' cs)
  show ?case
  proof (cases "c = c'")
    case True
    from keep_connector_in [OF Cons.prems(2), of c t] obtain c1 p1 where
      1: "map_of (keep_connector c (supported_types c) t) ty = Some (c1, p1)" and 2: "p \<le> p1"
      by blast
    from build_connectors_ge [OF 1, of cs] obtain c2 p2 where
      "map_of (build_connectors cs (keep_connector c (supported_types c) t)) ty = Some (c2, p2)"
      "p1 \<le> p2" by blast
    with 2 True show ?thesis by (intro exI [of _ c2] exI [of _ p2]) simp
  next
    case False
    then have "c \<in> set cs" using Cons.prems by simp
    from Cons.IH [OF this Cons.prems(2)] show ?thesis by simp
  qed
qed

lemma build_connectors_from:
  "map_of (build_connectors cs t) ty = Some (c1, p1) \<Longrightarrow>
     map_of t ty = Some (c1, p1) \<or> (\<exists>c \<in> set cs. (ty, p1) \<in> set (supported_types c))"
proof (induction cs arbitrary: t)
  case Nil
  then show ?case by simp
next
  case (Cons c cs)
  from Cons.prems have
    "map_of (build_connectors cs (keep_connector c (supported_types c) t)) ty = Some (c1, p1)"
    by simp
  from Cons.IH [OF this] show ?case
    by (auto dest: keep_connector_from)
qed

lemma get_supported_types_iff:
  "ty \<in> set (get_supported_types s) \<longleftrightarrow>
     (\<exists>c \<in> set (connectors s). \<exists>p. (ty, p) \<in> set (supported_types c) \<and> 0 \<le> p)"
  by (force simp: get_supported_types_def)

lemma supported_iff_table:
  "ty \<in> set (get_supported_types s) \<longleftrightarrow>
     (\<exists>c p. map_of (build_connectors (connectors s) []) ty = Some (c, p) \<and> 0 \<le> p)"
proof
  assume "ty \<in> set (get_supported_types s)"
  then obtain c p where "c \<in> set (connectors s)" "(ty, p) \<in> set (supported_types c)" "0 \<le> p"
    unfolding get_supported_types_iff by blast
  from build_connectors_in [OF this(1,2), of "[]"] this(3)
  show "\<exists>c p. map_of (build_connectors (connectors s) []) ty = Some (c, p) \<and> 0 \<le> p"
    by force
next
  assume "\<exists>c p. map_of (build_connectors (connectors s) []) ty = Some (c, p) \<and> 0 \<le> p"
  then obtain c p where 1: "map_of (build_connectors (connectors s) []) ty = Some (c, p)"
    and 2: "0 \<le> p" by blast
  from build_connectors_from [OF 1] 2 show "ty \<in> set (get_supported_types s)"
    unfolding get_supported_types_iff by auto
qed

lemma connectors_built_table:
  "connectors_built s \<Longrightarrow> connector_table s = build_connectors (connectors s) []"
  by (auto simp: connectors_built_def connector_table_def)

lemma connector_table_set [simp]:
  "connector_table (s\<lparr>p_connectors := Some t\<rparr>) = t"
  by (simp add: connector_table_def)

lemma get_connector_fields:
  "snd (get_connector rtype s) = s\<lparr>p_connectors := Some (connector_table s)\<rparr>"
  by (simp add: get_connector_def Let_def split: option.splits prod.splits)


lemma get_connector_state:
  "connectors_built s \<Longrightarrow>
     snd (get_connector rtype s) = s\<lparr>p_connectors := Some (build_connectors (connectors s) [])\<rparr>"
  by (simp add: get_connector_fields connectors_built_table)

lemma get_connector_unsupported:
  assumes "connectors_built s"
    and "\<And>ty. rtype = PStr ty \<Longrightarrow> ty \<notin> set (get_supported_types s)"
  shows "\<exists>t kw. fst (get_connector rtype s) = Inl (TracError t kw)
            \<and> map_of kw ''name'' = Some rtype"
proof (cases "lookup_connector (connector_table s) rtype")
  case None
  then show ?thesis by (simp add: get_connector_def Let_def)
next
  case (Some cp)
  obtain c p where cp: "cp = (c, p)" by (cases cp)
  from Some obtain ty where ty: "rtype = PStr ty"
    by (cases rtype) (simp_all add: lookup_connector_def)
  then have "ty \<notin> set (get_supported_types s)" using assms(2) by simp
  moreover have "map_of (build_connectors (connectors s) []) ty = Some (c, p)"
    using Some cp ty connectors_built_table [OF assms(1)] by (simp add: lookup_connector_def)
  ultimately have "\<not> 0 \<le> p" unfolding supported_iff_table by auto
  then show ?thesis using Some cp by (simp add: get_connector_def Let_def)
qed

lemma get_connector_supported:
  assumes "connectors_built s" and "ty \<in> set (get_supported_types s)"
  shows "\<exists>c. fst (get_connector (PStr ty) s) = Inr c"
proof -
  from assms(2) obtain c p where "map_of (build_connectors (connectors s) []) ty = Some (c, p)" "0 \<le> p"
    unfolding supported_iff_table by blast
  then show ?thesis
    using connectors_built_table [OF assms(1)]
    by (simp add: get_connector_def Let_def lookup_connector_def)
qed

lemma thread_repositories_fst:
  "fst (thread_repositories s) = dict_get (p_cache s) (thread s) []"
  by (simp add: thread_repositories_def Let_def dict_in_def dict_get_def)

lemma thread_repositories_fields:
  "thread_repositories s = (reps, s1) \<Longrightarrow>
     dict_in (thread s) (p_cache s1)
     \<and> dict_get (p_cache s1) (thread s) [] = dict_get (p_cache s) (thread s) []
     \<and> p_all_repositories s1 = p_all_repositories s \<and> objects s1 = objects s
     \<and> p_connectors s1 = p_connectors s \<and> thread s1 = thread s \<and> connectors s1 = connectors s
     \<and> providers s1 = providers s \<and> repository_type s1 = repository_type s
     \<and> env_path s1 = env_path s \<and> calls s1 = calls s \<and> change_listeners s1 = change_listeners s
     \<and> default_label s1 = default_label s \<and> abspath s1 = abspath s \<and> database s1 = database s"
  by (auto simp: thread_repositories_def Let_def dict_in_def dict_get_def update_conv'
           split: if_splits)

lemma thread_repositories_present:
  "dict_in (thread s) (p_cache s) \<Longrightarrow>
     thread_repositories s = (dict_get (p_cache s) (thread s) [], s)"
  by (simp add: thread_repositories_def Let_def)

lemma get_repository_dir_uncached:
  assumes "info_get repoinfo ''dir'' = PStr d" and "d \<noteq> []"
    and "map_of (dict_get (p_cache s) (thread s) []) reponame = None"
  shows "get_repository_dir B reponame repoinfo s =
     new_repository B reponame repoinfo d
       (py_or (info_get repoinfo ''type'') (PStr (repository_type s)))
       (dict_get (p_cache s) (thread s) [])
       (snd (thread_repositories s))"
  using assms thread_repositories_fst [of s]
  by (cases "thread_repositories s") (simp add: get_repository_dir_def Let_def)

lemma get_repository_dir_cached:
  assumes "truthy (info_get repoinfo ''dir'')"
    and "map_of (dict_get (p_cache s) (thread s) []) reponame = Some repos"
  shows "get_repository_dir B reponame repoinfo s = (Inr (Some repos), s)"
proof -
  have "dict_in (thread s) (p_cache s)"
    using assms(2) by (auto simp: dict_in_def dict_get_def split: option.splits)
  then show ?thesis
    using assms by (simp add: get_repository_dir_def Let_def thread_repositories_present)
qed

lemma new_repository_error:
  assumes "fst (get_connector rtype s) = Inl e"
  shows "new_repository B reponame repoinfo d rtype repositories s = (Inl e, snd (get_connector rtype s))"
  using assms by (cases "get_connector rtype s") (simp add: new_repository_def Let_def)

lemma dict_get_update_new:
  "\<not> dict_in k d \<Longrightarrow> dict_get (AList.update k [] d) k [] = dict_get d k []"
  by (simp add: dict_in_def dict_get_def update_conv')

lemma hg_rows_registry:
  "fst (get_all_repositories (new_manager hg_rows)) =
     [(''trunk'', [(''name'', PStr ''trunk''), (''dir'', PStr ''/srv/hg/trunk''),
                   (''type'', PStr ''hg''), (''id'', PInt 1)])]"
  by (simp add: get_all_repositories_def load_repositories_def new_manager_def hg_rows_def
        db_get_repositories_def repository_attrs_def dict_get_def dict_in_def)

lemma dict_get_update_same:
  "dict_get (AList.update k v d) k dflt = v"
  by (simp add: dict_get_def update_conv')



lemma new_repository_unfold:
  "new_repository B n info d rtype reps s1 =
      (case fst (get_connector rtype s1) of
         Inl e \<Rightarrow> (Inl e, s1\<lparr>p_connectors := Some (connector_table s1)\<rparr>)
       | Inr c \<Rightarrow> (case rtype of
            PStr ty \<Rightarrow>
              (case connector_get_repository B ty
                      (if isabs d then d else path_join (env_path s1) d) info of
                 Inl e \<Rightarrow> (Inl e, s1\<lparr>p_connectors := Some (connector_table s1)\<rparr>)
               | Inr obj \<Rightarrow> (Inr (Some (length (objects s1))),
                    s1\<lparr>p_connectors := Some (connector_table s1),
                       objects := objects s1 @ [obj],
                       p_cache := AList.update (thread s1)
                           (AList.update n (length (objects s1)) reps) (p_cache s1)\<rparr>))
          | _ \<Rightarrow> (Inl AttributeError, s1\<lparr>p_connectors := Some (connector_table s1)\<rparr>)))"
proof -
  obtain cr where cr: "get_connector rtype s1 = (cr, s1\<lparr>p_connectors := Some (connector_table s1)\<rparr>)"
    using get_connector_fields [of rtype s1] by (cases "get_connector rtype s1") simp
  show ?thesis
    unfolding new_repository_def Let_def cr
    by (simp split: sum.split pyval.split)
qed

lemma new_repository_fields:
  "p_all_repositories (snd (new_repository B n info d rtype reps s1)) = p_all_repositories s1
   \<and> thread (snd (new_repository B n info d rtype reps s1)) = thread s1
   \<and> database (snd (new_repository B n info d rtype reps s1)) = database s1
   \<and> connectors (snd (new_repository B n info d rtype reps s1)) = connectors s1
   \<and> providers (snd (new_repository B n info d rtype reps s1)) = providers s1
   \<and> repository_type (snd (new_repository B n info d rtype reps s1)) = repository_type s1
   \<and> env_path (snd (new_repository B n info d rtype reps s1)) = env_path s1
   \<and> calls (snd (new_repository B n info d rtype reps s1)) = calls s1
   \<and> change_listeners (snd (new_repository B n info d rtype reps s1)) = change_listeners s1
   \<and> default_label (snd (new_repository B n info d rtype reps s1)) = default_label s1
   \<and> abspath (snd (new_repository B n info d rtype reps s1)) = abspath s1
   \<and> p_connectors (snd (new_repository B n info d rtype reps s1)) = Some (connector_table s1)"
  unfolding new_repository_unfold
  by (simp split: sum.split pyval.split)

lemma connector_get_repository_open:
  "connector_get_repository B ty d info = Inr obj \<Longrightarrow> \<not> r_closed obj"
  by (auto simp: connector_get_repository_def Repository_init_def split: option.splits)

lemma new_repository_objects:
  "(case fst (new_repository B n info d rtype reps s1) of
      Inr None \<Rightarrow> False
    | Inr (Some ob) \<Rightarrow> ob = length (objects s1)
         \<and> (\<exists>obj. objects (snd (new_repository B n info d rtype reps s1)) = objects s1 @ [obj]
                \<and> \<not> r_closed obj)
         \<and> p_cache (snd (new_repository B n info d rtype reps s1))
              = AList.update (thread s1) (AList.update n ob reps) (p_cache s1)
    | Inl e \<Rightarrow> objects (snd (new_repository B n info d rtype reps s1)) = objects s1
         \<and> p_cache (snd (new_repository B n info d rtype reps s1)) = p_cache s1)"
  unfolding new_repository_unfold
  by (auto split: sum.split pyval.split split del: if_split dest: connector_get_repository_open)

lemma get_repository_dir_unfold:
  "get_repository_dir B n info s =
     (if \<not> truthy (info_get info ''dir'') then (Inr None, s)
      else case map_of (dict_get (p_cache s) (thread s) []) n of
             Some repos \<Rightarrow> (Inr (Some repos), s)
           | None \<Rightarrow>
               (case info_get info ''dir'' of
                  PStr d \<Rightarrow> new_repository B n info d
                     (py_or (info_get info ''type'') (PStr (repository_type s)))
                     (dict_get (p_cache s) (thread s) []) (snd (thread_repositories s))
                | _ \<Rightarrow> (Inl AttributeError, snd (thread_repositories s))))"
proof (cases "truthy (info_get info ''dir'')")
  case False
  then show ?thesis by (simp add: get_repository_dir_def)
next
  case True
  show ?thesis
  proof (cases "map_of (dict_get (p_cache s) (thread s) []) n")
    case (Some repos)
    then show ?thesis using True get_repository_dir_cached [OF True Some, of B] by simp
  next
    case None
    then show ?thesis
      using True thread_repositories_fst [of s]
      by (cases "thread_repositories s")
         (simp add: get_repository_dir_def Let_def split: pyval.split)
  qed
qed

lemma get_repository_dir_fields:
  "p_all_repositories (snd (get_repository_dir B n info s)) = p_all_repositories s
   \<and> thread (snd (get_repository_dir B n info s)) = thread s
   \<and> database (snd (get_repository_dir B n info s)) = database s
   \<and> connectors (snd (get_repository_dir B n info s)) = connectors s
   \<and> providers (snd (get_repository_dir B n info s)) = providers s
   \<and> repository_type (snd (get_repository_dir B n info s)) = repository_type s
   \<and> env_path (snd (get_repository_dir B n info s)) = env_path s
   \<and> calls (snd (get_repository_dir B n info s)) = calls s
   \<and> change_listeners (snd (get_repository_dir B n info s)) = change_listeners s
   \<and> default_label (snd (get_repository_dir B n info s)) = default_label s
   \<and> abspath (snd (get_repository_dir B n info s)) = abspath s"
  unfolding get_repository_dir_unfold
  using thread_repositories_fields [OF prod.collapse [symmetric], of s]
  by (simp add: new_repository_fields split: option.split pyval.split)



lemma get_repository_dir_not_None:
  assumes "info_get info ''dir'' = PStr d" and "d \<noteq> []"
  shows "fst (get_repository_dir B n info s) \<noteq> Inr None"
  unfolding get_repository_dir_unfold
  using assms new_repository_objects [of B n info d
          "py_or (info_get info ''type'') (PStr (repository_type s))"
          "dict_get (p_cache s) (thread s) []" "snd (thread_repositories s)"]
  by (auto split: option.splits)






lemma close_all_length [simp]: "length (close_all os objs) = length objs"
  by (induction os arbitrary: objs) auto

lemma close_all_keeps_closed:
  "ob < length objs \<Longrightarrow> r_closed (objs ! ob) \<Longrightarrow> r_closed (close_all os objs ! ob)"
  by (induction os arbitrary: objs) (auto simp: nth_list_update)

lemma close_all_closed:
  "ob \<in> set os \<Longrightarrow> ob < length objs \<Longrightarrow> r_closed (close_all os objs ! ob)"
proof (induction os arbitrary: objs)
  case Nil
  then show ?case by simp
next
  case (Cons a os)
  show ?case
  proof (cases "ob = a")
    case True
    then show ?thesis using Cons.prems by (simp add: close_all_keeps_closed)
  next
    case False
    then show ?thesis using Cons by auto
  qed
qed

lemma close_all_other:
  "ob \<notin> set os \<Longrightarrow> close_all os objs ! ob = objs ! ob"
  by (induction os arbitrary: objs) auto

lemma get_repository_dir_effect:
  assumes run: "get_repository_dir B n info s = (r, s')"
  shows "(objects s' = objects s
          \<and> dict_get (p_cache s') (thread s) [] = dict_get (p_cache s) (thread s) []
          \<and> (\<forall>ob. r = Inr (Some ob) \<longrightarrow> (n, ob) \<in> set (dict_get (p_cache s) (thread s) [])))
       \<or> (r = Inr (Some (length (objects s)))
          \<and> (\<exists>obj. objects s' = objects s @ [obj] \<and> \<not> r_closed obj)
          \<and> dict_get (p_cache s') (thread s) []
               = AList.update n (length (objects s)) (dict_get (p_cache s) (thread s) []))"
proof -
  let ?reps = "dict_get (p_cache s) (thread s) []"
  let ?s1 = "snd (thread_repositories s)"
  note g = thread_repositories_fields [OF prod.collapse [symmetric], of s]
  show ?thesis
  proof (cases "truthy (info_get info ''dir'')")
    case False
    then show ?thesis using run by (auto simp: get_repository_dir_unfold)
  next
    case True
    show ?thesis
    proof (cases "map_of ?reps n")
      case (Some repos)
      then have "(n, repos) \<in> set ?reps" by (rule map_of_SomeD)
      then show ?thesis using run True Some by (auto simp: get_repository_dir_unfold)
    next
      case None
      show ?thesis
      proof (cases "info_get info ''dir''")
        case (PStr d)
        let ?new = "new_repository B n info d
            (py_or (info_get info ''type'') (PStr (repository_type s))) ?reps ?s1"
        have new: "?new = (r, s')"
          using run True None PStr by (simp add: get_repository_dir_unfold)
        note o = new_repository_objects [of B n info d
            "py_or (info_get info ''type'') (PStr (repository_type s))" ?reps ?s1]
        show ?thesis
        proof (cases r)
          case (Inl e)
          then have "objects s' = objects s" "p_cache s' = p_cache ?s1"
            using o new g by simp_all
          then show ?thesis using Inl g by simp
        next
          case (Inr x)
          then obtain ob where x: "x = Some ob" using o new by (cases x) simp_all
          have "ob = length (objects s)" and "\<exists>obj. objects s' = objects s @ [obj] \<and> \<not> r_closed obj"
            and "p_cache s' = AList.update (thread s) (AList.update n ob ?reps) (p_cache ?s1)"
            using o new Inr x g by simp_all
          then show ?thesis using Inr x by (simp add: dict_get_update_same)
        qed
      qed (use run True None g in \<open>auto simp: get_repository_dir_unfold\<close>)
    qed
  qed
qed

lemma get_repository_effect:
  assumes run: "get_repository B n s = (r, s')"
  shows "thread s' = thread s
     \<and> ((objects s' = objects s
          \<and> dict_get (p_cache s') (thread s) [] = dict_get (p_cache s) (thread s) []
          \<and> (\<forall>ob. r = Inr (Some ob) \<longrightarrow> ob \<in> snd ` set (dict_get (p_cache s) (thread s) [])))
       \<or> (r = Inr (Some (length (objects s)))
          \<and> (\<exists>obj. objects s' = objects s @ [obj] \<and> \<not> r_closed obj)
          \<and> (\<exists>n'. dict_get (p_cache s') (thread s) []
               = AList.update n' (length (objects s)) (dict_get (p_cache s) (thread s) []))))"
proof -
  let ?a = "fst (get_all_repositories s)"
  let ?s1 = "snd (get_all_repositories s)"
  have reg: "get_all_repositories s = (?a, ?s1)" by simp
  note f = get_all_repositories_fields [OF reg]
  show ?thesis
  proof (cases "resolved_name ?a n")
    case (PStr m)
    then have d: "get_repository_dir B m (resolved_info ?a n) ?s1 = (r, s')"
      using run by (simp add: get_repository_resolved [OF reg])
    have "thread s' = thread s"
      using get_repository_dir_fields [of B m "resolved_info ?a n" ?s1] d f by simp
    moreover note get_repository_dir_effect [OF d]
    ultimately show ?thesis using f by (auto simp: image_iff intro: rev_bexI)
  qed (use run f in \<open>auto simp: get_repository_resolved [OF reg]\<close>)
qed

lemma set_update_subset:
  "set (AList.update k v al) \<subseteq> insert (k, v) (set al)"
  by (induction al) auto

lemma get_repository_constructed_since:
  assumes J: "constructed_since N s" and run: "get_repository B n s = (r, s')"
  shows "constructed_since N s'
     \<and> (\<forall>ob. r = Inr (Some ob) \<longrightarrow>
           N \<le> ob \<and> ob < length (objects s') \<and> \<not> r_closed (objects s' ! ob))"
proof -
  note e = get_repository_effect [OF run]
  then have th: "thread s' = thread s" by simp
  from e consider
      (same) "objects s' = objects s"
        "dict_get (p_cache s') (thread s) [] = dict_get (p_cache s) (thread s) []"
        "\<forall>ob. r = Inr (Some ob) \<longrightarrow> ob \<in> snd ` set (dict_get (p_cache s) (thread s) [])"
    | (new) obj n' where "r = Inr (Some (length (objects s)))"
        "objects s' = objects s @ [obj]" "\<not> r_closed obj"
        "dict_get (p_cache s') (thread s) []
               = AList.update n' (length (objects s)) (dict_get (p_cache s) (thread s) [])"
    by blast
  then show ?thesis
  proof cases
    case same
    then show ?thesis using J th by (auto simp: constructed_since_def)
  next
    case new
    have sub: "snd ` set (dict_get (p_cache s') (thread s') [])
        \<subseteq> insert (length (objects s)) (snd ` set (dict_get (p_cache s) (thread s) []))"
      unfolding th new(4) using set_update_subset [of n' "length (objects s)"] by force
    have J': "constructed_since N s'"
      unfolding constructed_since_def
    proof (intro conjI allI impI ballI)
      show "N \<le> length (objects s')" using J new by (simp add: constructed_since_def)
    next
      fix ob assume "N \<le> ob \<and> ob < length (objects s')"
      then show "\<not> r_closed (objects s' ! ob)"
        using J new by (cases "ob = length (objects s)") (auto simp: constructed_since_def nth_append)
    next
      fix ob assume "ob \<in> snd ` set (dict_get (p_cache s') (thread s') [])"
      then have "ob = length (objects s) \<or> ob \<in> snd ` set (dict_get (p_cache s) (thread s) [])"
        using sub by auto
      then show "N \<le> ob" using J by (auto simp: constructed_since_def)
    next
      fix ob assume "ob \<in> snd ` set (dict_get (p_cache s') (thread s') [])"
      then have "ob = length (objects s) \<or> ob \<in> snd ` set (dict_get (p_cache s) (thread s) [])"
        using sub by auto
      then show "ob < length (objects s')" using J new by (auto simp: constructed_since_def)
    qed
    moreover have "N \<le> length (objects s)" using J by (simp add: constructed_since_def)
    ultimately show ?thesis using new by (simp add: nth_append)
  qed
qed

lemma get_repository_calls_constructed_since:
  "constructed_since N s \<Longrightarrow> constructed_since N (get_repository_calls B ns s)"
proof (induction ns arbitrary: s)
  case Nil
  then show ?case by simp
next
  case (Cons n ns)
  have "constructed_since N (snd (get_repository B n s))"
    using get_repository_constructed_since [OF Cons.prems, of B n] by (simp add: prod_eq_iff)
  then show ?case using Cons.IH by simp
qed

lemma shutdown_running_thread:
  "tid \<noteq> 0 \<Longrightarrow> thread s = tid \<Longrightarrow>
     shutdown (Some tid) s =
       (Inr (), s\<lparr>p_cache := AList.delete tid (p_cache s),
                  objects := close_all (map snd (dict_get (p_cache s) tid [])) (objects s)\<rparr>)"
  by (simp add: shutdown_def Let_def)

lemmas trunk_defs = trunk_manager_def get_repository_def get_all_repositories_def
  load_repositories_def new_manager_def
  svn_rows_def db_get_repositories_def repository_attrs_def dict_get_def dict_in_def
  get_repository_dir_def info_get_def py_or_def thread_repositories_def new_repository_def
  get_connector_def connector_table_def lookup_connector_def svn_connector_def
  connector_get_repository_def Repository_init_def plain_backend_def isabs_def Let_def

lemma trunk_manager_cache:
  "p_cache trunk_manager = [(1, [(''trunk'', 0)])] \<and> thread trunk_manager = 1
   \<and> length (objects trunk_manager) = 1 \<and> \<not> r_closed (objects trunk_manager ! 0)"
  by (simp add: trunk_defs)

lemma trunk_manager_again:
  "get_repository plain_backend ''trunk'' (snd (shutdown (Some 1) trunk_manager)) =
     (Inr (Some 1), snd (get_repository plain_backend ''trunk'' (snd (shutdown (Some 1) trunk_manager))))"
  by (simp add: prod_eq_iff) (simp add: shutdown_def trunk_defs)

section \<open>Lemmas on the identifiers of repository names\<close>

lemma fold_max_ge: "m \<le> fold (\<lambda>r m. max (fst r) m) rs (m::int)"
  by (induction rs arbitrary: m) (auto intro: order_trans [OF max.cobounded2])

lemma fold_max_mem: "r \<in> set rs \<Longrightarrow> fst r \<le> fold (\<lambda>r m. max (fst r) m) rs (m::int)"
proof (induction rs arbitrary: m)
  case Nil then show ?case by simp
next
  case (Cons a rs)
  show ?case
  proof (cases "r = a")
    case True
    have "fst a \<le> max (fst a) m" by simp
    also have "\<dots> \<le> fold (\<lambda>r m. max (fst r) m) rs (max (fst a) m)" by (rule fold_max_ge)
    finally show ?thesis using True by simp
  next
    case False
    with Cons show ?thesis by simp
  qed
qed

lemma select_max_id_ge: "r \<in> set db \<Longrightarrow> fst r \<le> select_max_id db"
  by (cases db) (auto simp: select_max_id_def fold_max_ge fold_max_mem)

lemma fold_max_Max: "fold (\<lambda>r m. max (fst r) m) rs (m::int) = Max (insert m (fst ` set rs))"
proof (induction rs arbitrary: m)
  case Nil then show ?case by simp
next
  case (Cons a rs)
  have "Max (insert (max (fst a) m) (fst ` set rs)) = Max (insert m (insert (fst a) (fst ` set rs)))"
    by (cases "fst ` set rs = {}") (simp_all add: max.commute max.left_commute max.assoc)
  then show ?case using Cons by simp
qed

lemma select_max_id_Max: "select_max_id db = (if db = [] then 0 else Max (fst ` set db))"
  by (cases db) (simp_all add: select_max_id_def fold_max_Max)


lemma select_max_id_snoc: "select_max_id (db @ [(select_max_id db + 1, n, v)]) = select_max_id db + 1"
proof (cases "db = []")
  case True
  then show ?thesis by (simp add: select_max_id_def)
next
  case False
  have fin: "finite (fst ` set db)" by simp
  have ne: "fst ` set db \<noteq> {}" using False by simp
  have "Max (insert (Max (fst ` set db) + 1) (fst ` set db)) = Max (fst ` set db) + 1"
    using fin ne by (subst Max_insert) (auto simp: max_def)
  then show ?thesis using False by (simp add: select_max_id_Max)
qed

lemma select_id_by_name_append:
  "select_id_by_name (db @ ext) m = select_id_by_name db m @ select_id_by_name ext m"
  by (simp add: select_id_by_name_def)

lemma select_id_by_name_single:
  "select_id_by_name [(i, ''name'', Some n)] m = (if m = n then [i] else [])"
  by (auto simp: select_id_by_name_def)

lemma select_id_by_name_mem:
  "i \<in> set (select_id_by_name db m) \<Longrightarrow> (i, ''name'', Some m) \<in> set db"
  by (auto simp: select_id_by_name_def)

lemma select_id_by_name_le: "i \<in> set (select_id_by_name db m) \<Longrightarrow> i \<le> select_max_id db"
  using select_max_id_ge [of "(i, ''name'', Some m)" db] by (auto dest: select_id_by_name_mem)

lemma get_repository_id_found:
  "select_id_by_name db n = i # r \<Longrightarrow> get_repository_id db n = (i, db)"
  by (simp add: get_repository_id_def)

lemma get_repository_id_new:
  "select_id_by_name db n = [] \<Longrightarrow>
     get_repository_id db n = (select_max_id db + 1, db @ [(select_max_id db + 1, ''name'', Some n)])"
  by (simp add: get_repository_id_def Let_def)

lemma get_repository_id_select:
  "get_repository_id db n = (i, db') \<Longrightarrow> \<exists>r. select_id_by_name db' n = i # r"
  by (cases "select_id_by_name db n")
     (auto simp: get_repository_id_new get_repository_id_found select_id_by_name_append
                 select_id_by_name_single)

lemma get_repository_id_other:
  "m \<noteq> n \<Longrightarrow> select_id_by_name (snd (get_repository_id db n)) m = select_id_by_name db m"
  by (cases "select_id_by_name db n")
     (auto simp: get_repository_id_new get_repository_id_found select_id_by_name_append
                 select_id_by_name_single)

lemma get_repository_id_max:
  "select_max_id db \<le> select_max_id (snd (get_repository_id db n))"
  by (cases "select_id_by_name db n")
     (auto simp: get_repository_id_new get_repository_id_found select_max_id_snoc)

lemma get_repository_ids_max:
  "select_max_id db \<le> select_max_id (get_repository_ids db ns)"
proof (induction ns arbitrary: db)
  case Nil show ?case by simp
next
  case (Cons x ns)
  show ?case using get_repository_id_max [of db x] Cons [of "snd (get_repository_id db x)"] by simp
qed

lemma get_repository_ids_later:
  "(select_id_by_name db m = a # r \<longrightarrow> fst (get_repository_id (get_repository_ids db ns) m) = a)
   \<and> (select_id_by_name db m = [] \<longrightarrow> select_max_id db < fst (get_repository_id (get_repository_ids db ns) m))"
proof (induction ns arbitrary: db a r)
  case Nil
  show ?case by (auto simp: get_repository_id_new get_repository_id_found)
next
  case (Cons x ns)
  let ?db1 = "snd (get_repository_id db x)"
  show ?case
  proof (intro conjI impI)
    assume h: "select_id_by_name db m = a # r"
    have "\<exists>r'. select_id_by_name ?db1 m = a # r'"
      by (cases "select_id_by_name db x")
         (use h in \<open>auto simp: get_repository_id_new get_repository_id_found select_id_by_name_append\<close>)
    then obtain r' where "select_id_by_name ?db1 m = a # r'" ..
    with Cons.IH [of ?db1 a r'] show "fst (get_repository_id (get_repository_ids db (x # ns)) m) = a"
      by simp
  next
    assume h: "select_id_by_name db m = []"
    show "select_max_id db < fst (get_repository_id (get_repository_ids db (x # ns)) m)"
    proof (cases "x = m")
      case True
      then have "select_id_by_name ?db1 m = [select_max_id db + 1]"
        using h by (simp add: get_repository_id_new select_id_by_name_append select_id_by_name_single)
      with Cons.IH [of ?db1 "select_max_id db + 1" "[]"] show ?thesis
        by simp
    next
      case False
      then have "select_id_by_name ?db1 m = []"
        using h by (simp add: get_repository_id_other)
      with Cons.IH [of ?db1] have "select_max_id ?db1 < fst (get_repository_id (get_repository_ids ?db1 ns) m)"
        by simp
      with get_repository_id_max [of db x] show ?thesis by simp
    qed
  qed
qed

lemma add_repository_rows_database:
  "database (add_repository_rows n dir t s) =
     snd (get_repository_id (database s) n) @
       [(fst (get_repository_id (database s) n), ''dir'', Some dir),
        (fst (get_repository_id (database s) n), ''type'', Some t)]
   \<and> p_cache (add_repository_rows n dir t s) = []
   \<and> p_all_repositories (add_repository_rows n dir t s) = None
   \<and> objects (add_repository_rows n dir t s) = objects s
   \<and> thread (add_repository_rows n dir t s) = thread s
   \<and> connectors (add_repository_rows n dir t s) = connectors s
   \<and> p_connectors (add_repository_rows n dir t s) = p_connectors s
   \<and> providers (add_repository_rows n dir t s) = providers s
   \<and> repository_type (add_repository_rows n dir t s) = repository_type s"
  by (simp add: add_repository_rows_def reload_repositories_def split_beta Let_def)

lemmas add_repository_defs = add_repository_def add_repository_rows_def reload_repositories_def
  get_repository_id_def select_id_by_name_def select_max_id_def is_default_def isabs_def
  get_supported_types_def new_manager_def svn_connector_def alias_rows_def svn_rows_def Let_def

lemma sorted_le_last:
  "sorted xs \<Longrightarrow> x \<in> set xs \<Longrightarrow> x \<le> last (xs :: 'a::linorder list)"
  by (induction xs) (auto split: if_splits)

lemma last_sort_greatest:
  assumes "xs \<noteq> []"
  shows "last (sort xs) \<in> set xs \<and> (\<forall>x \<in> set xs. x \<le> last (sort (xs :: 'a::linorder list)))"
proof -
  have ne: "sort xs \<noteq> []"
  proof
    assume "sort xs = []"
    then have "length (sort xs) = 0" by (simp only: list.size)
    then show False using assms by simp
  qed
  then have "last (sort xs) \<in> set (sort xs)" by (rule last_in_set)
  then have 1: "last (sort xs) \<in> set xs" by simp
  have "x \<le> last (sort xs)" if "x \<in> set xs" for x
    using sorted_le_last [of "sort xs" x] that by simp
  then show ?thesis using 1 by blast
qed

lemma path_matches_set:
  "set (path_matches reponames path1) =
     (\<lambda>n. (length (strip_slash n @ ''/''), n)) ` {n \<in> set reponames. name_matches path1 n}"
  by (auto simp: path_matches_def name_matches_def)

lemma split_repository_path_none:
  assumes "\<forall>n \<in> set reponames. \<not> name_matches (normalized_path path) n"
  shows "split_repository_path reponames path = ([], remaining_path (normalized_path path))"
proof -
  have "path_matches reponames (normalized_path path) = []"
    using assms by (simp add: path_matches_def name_matches_def filter_empty_conv)
  then show ?thesis
    by (simp add: split_repository_path_def normalized_path_def remaining_path_def Let_def)
qed

lemma split_repository_path_some:
  assumes "\<exists>n \<in> set reponames. name_matches (normalized_path path) n"
  defines "rn \<equiv> fst (split_repository_path reponames path)"
  shows "rn \<in> set reponames \<and> name_matches (normalized_path path) rn
     \<and> (\<forall>m \<in> set reponames. name_matches (normalized_path path) m \<longrightarrow>
           length (strip_slash m) < length (strip_slash rn)
           \<or> (length (strip_slash m) = length (strip_slash rn) \<and> m \<le> rn))
     \<and> snd (split_repository_path reponames path)
          = remaining_path (drop (length (strip_slash rn) + 1) (normalized_path path))"
proof -
  let ?p = "normalized_path path"
  let ?ms = "path_matches reponames ?p"
  have ne: "?ms \<noteq> []"
    using assms(1) by (simp add: path_matches_def name_matches_def filter_empty_conv)
  obtain len r where lr: "last (sort ?ms) = (len, r)" by (cases "last (sort ?ms)")
  have sp: "split_repository_path reponames path = (r, remaining_path (drop len ?p))"
    using ne lr
    by (simp add: split_repository_path_def normalized_path_def remaining_path_def Let_def)
  then have rn: "rn = r" by (simp add: rn_def)
  note g = last_sort_greatest [OF ne]
  have mem: "(len, r) \<in> set ?ms" using g lr by simp
  then have r: "r \<in> set reponames" "name_matches ?p r" and len: "len = length (strip_slash r) + 1"
    unfolding path_matches_set by auto
  have "length (strip_slash m) < length (strip_slash r)
           \<or> (length (strip_slash m) = length (strip_slash r) \<and> m \<le> r)"
    if "m \<in> set reponames" "name_matches ?p m" for m
  proof -
    have "(length (strip_slash m @ ''/''), m) \<in> set ?ms"
      unfolding path_matches_set using that by auto
    then have "(length (strip_slash m @ ''/''), m) \<le> (len, r)" using g lr by auto
    then show ?thesis unfolding len by auto
  qed
  then show ?thesis using r len sp rn by simp
qed

lemmas by_path_defs = get_repository_by_path_def split_repository_path_def path_matches_def
  strip_slash_def rstrip_slash_def startswith_def su_rows_def sub_rows_def
  get_repository_def get_all_repositories_def
  load_repositories_def new_manager_def
  db_get_repositories_def repository_attrs_def dict_get_def dict_in_def
  get_repository_dir_def info_get_def py_or_def thread_repositories_def new_repository_def
  get_connector_def connector_table_def lookup_connector_def svn_connector_def
  connector_get_repository_def Repository_init_def plain_backend_def isabs_def Let_def

section \<open>Identifiers of repository names\<close>

text \<open>
  C9: \<open>get_repository_id\<close> is idempotent and its allocation is stable.  A call for a name
  that has no \<^verbatim>\<open>name\<close> row returns one more than the greatest id of the table (1 on an
  empty table) and appends the \<^verbatim>\<open>name\<close> row in the same step; a call for a known name
  returns its first id and writes nothing; every later call for the name, also after calls
  for any other names, returns the same id and writes nothing; and two distinct names, at
  least one of which was unknown to the table, never get the same id.
\<close>

theorem get_repository_id_stable:
  assumes "get_repository_id db n = (i, db')"
  shows "get_repository_id db' n = (i, db')
    \<and> (select_id_by_name db n = [] \<longrightarrow>
          i = (if db = [] then 0 else Max (fst ` set db)) + 1
          \<and> db' = db @ [(i, ''name'', Some n)])
    \<and> (select_id_by_name db n \<noteq> [] \<longrightarrow> i = hd (select_id_by_name db n) \<and> db' = db)
    \<and> (\<forall>ns. get_repository_id (get_repository_ids db' ns) n = (i, get_repository_ids db' ns))
    \<and> (\<forall>ns m. m \<noteq> n \<and> (select_id_by_name db n = [] \<or> select_id_by_name db m = []) \<longrightarrow>
          fst (get_repository_id (get_repository_ids db' ns) m) \<noteq> i)"
proof -
  obtain r where sel: "select_id_by_name db' n = i # r"
    using get_repository_id_select [OF assms] ..
  have idem: "get_repository_id db' n = (i, db')"
    using sel by (rule get_repository_id_found)
  have fresh: "select_id_by_name db n = [] \<longrightarrow>
          i = (if db = [] then 0 else Max (fst ` set db)) + 1 \<and> db' = db @ [(i, ''name'', Some n)]"
    using assms by (auto simp: get_repository_id_new select_max_id_Max)
  have old: "select_id_by_name db n \<noteq> [] \<longrightarrow> i = hd (select_id_by_name db n) \<and> db' = db"
    using assms by (cases "select_id_by_name db n") (auto simp: get_repository_id_found)
  have later: "get_repository_id (get_repository_ids db' ns) n = (i, get_repository_ids db' ns)" for ns
  proof -
    have "fst (get_repository_id (get_repository_ids db' ns) n) = i"
      using get_repository_ids_later [of db' n i r ns] sel by simp
    moreover have "select_id_by_name (get_repository_ids db' ns) n \<noteq> []"
    proof
      assume e: "select_id_by_name (get_repository_ids db' ns) n = []"
      have "i \<le> select_max_id db'" using sel select_id_by_name_le [of i db' n] by simp
      also have "\<dots> \<le> select_max_id (get_repository_ids db' ns)" by (rule get_repository_ids_max)
      finally show False
        using \<open>fst (get_repository_id (get_repository_ids db' ns) n) = i\<close> e
        by (simp add: get_repository_id_new)
    qed
    ultimately show ?thesis
      by (cases "select_id_by_name (get_repository_ids db' ns) n") (auto simp: get_repository_id_found)
  qed
  have dist: "fst (get_repository_id (get_repository_ids db' ns) m) \<noteq> i"
    if mn: "m \<noteq> n" and one: "select_id_by_name db n = [] \<or> select_id_by_name db m = []" for ns m
  proof -
    have ile: "i \<le> select_max_id db'" using sel select_id_by_name_le [of i db' n] by simp
    have selm: "select_id_by_name db' m = select_id_by_name db m"
      using get_repository_id_other [OF mn, of db] assms by simp
    show ?thesis
    proof (cases "select_id_by_name db m")
      case Nil
      then have "select_max_id db' < fst (get_repository_id (get_repository_ids db' ns) m)"
        using get_repository_ids_later [of db' m _ _ ns] selm by simp
      with ile show ?thesis by simp
    next
      case (Cons a r')
      then have n_new: "select_id_by_name db n = []" using one by simp
      have "fst (get_repository_id (get_repository_ids db' ns) m) = a"
        using get_repository_ids_later [of db' m a r' ns] selm Cons by simp
      moreover have "a \<le> select_max_id db"
        using Cons select_id_by_name_le [of a db m] by simp
      moreover have "i = select_max_id db + 1"
        using n_new assms by (simp add: get_repository_id_new)
      ultimately show ?thesis by simp
    qed
  qed
  show ?thesis using idem fresh old later dist by blast
qed

lemma trunk_allocated: "get_repository_id [(1, ''name'', Some ''''), (1, ''dir'', Some ''/srv/svn'')] ''trunk''
    = (2, [(1, ''name'', Some ''''), (1, ''dir'', Some ''/srv/svn''), (2, ''name'', Some ''trunk'')])"
  by (simp add: get_repository_id_def select_id_by_name_def select_max_id_def)

lemma trunk_unknown: "select_id_by_name [(1, ''name'', Some ''''), (1, ''dir'', Some ''/srv/svn'')] ''trunk'' = []"
  by (simp add: select_id_by_name_def)

theorem get_repository_id_stable_witness:
  "get_repository_id [(1, ''name'', Some ''''), (1, ''dir'', Some ''/srv/svn'')] ''trunk''
      = (2, [(1, ''name'', Some ''''), (1, ''dir'', Some ''/srv/svn''), (2, ''name'', Some ''trunk'')])
   \<and> get_repository_id (get_repository_ids
         [(1, ''name'', Some ''''), (1, ''dir'', Some ''/srv/svn''), (2, ''name'', Some ''trunk'')]
         [''tags'', ''trunk'']) ''trunk''
      = (2, get_repository_ids
         [(1, ''name'', Some ''''), (1, ''dir'', Some ''/srv/svn''), (2, ''name'', Some ''trunk'')]
         [''tags'', ''trunk''])
   \<and> fst (get_repository_id (get_repository_ids
         [(1, ''name'', Some ''''), (1, ''dir'', Some ''/srv/svn''), (2, ''name'', Some ''trunk'')]
         [''tags'']) ''tags'') \<noteq> 2"
proof -
  note t = get_repository_id_stable [OF trunk_allocated]
  have a: "get_repository_id (get_repository_ids
         [(1, ''name'', Some ''''), (1, ''dir'', Some ''/srv/svn''), (2, ''name'', Some ''trunk'')]
         [''tags'', ''trunk'']) ''trunk''
      = (2, get_repository_ids
         [(1, ''name'', Some ''''), (1, ''dir'', Some ''/srv/svn''), (2, ''name'', Some ''trunk'')]
         [''tags'', ''trunk''])"
    by (rule t [THEN conjunct2, THEN conjunct2, THEN conjunct2, THEN conjunct1, THEN spec])
  note d = t [THEN conjunct2, THEN conjunct2, THEN conjunct2, THEN conjunct2, rule_format]
  have b: "fst (get_repository_id (get_repository_ids
         [(1, ''name'', Some ''''), (1, ''dir'', Some ''/srv/svn''), (2, ''name'', Some ''trunk'')]
         [''tags'']) ''tags'') \<noteq> 2"
    by (rule d) (rule conjI, simp, rule disjI1, rule trunk_unknown)
  show ?thesis by (intro conjI trunk_allocated a b)
qed

section \<open>Names without a directory\<close>

text \<open>
  C4: when the entry that the lookup of a name ends at, after at most one alias
  resolution, has no \<^verbatim>\<open>dir\<close> attribute, and in particular when the name is absent from
  the registry, \<open>get_repository\<close> returns \<^verbatim>\<open>None\<close>: it does not raise, it builds no
  repository object and it leaves the cache of instances as it was.
\<close>

theorem get_repository_without_dir:
  assumes "get_all_repositories s = (a, s1)"
  shows "(map_of (resolved_info a reponame) ''dir'' = None \<or> map_of a reponame = None \<longrightarrow>
            get_repository B reponame s = (Inr None, s1)
            \<and> objects s1 = objects s \<and> p_cache s1 = p_cache s)"
proof -
  have nodir: "map_of (resolved_info a reponame) ''dir'' = None" if "map_of a reponame = None"
    using that by (simp add: resolved_info_def resolved_name_def dict_get_def)
  have res: "get_repository B reponame s = (Inr None, s1)"
    if "map_of (resolved_info a reponame) ''dir'' = None"
    using that unfolding get_repository_resolved [OF assms]
    by (auto simp: get_repository_dir_no_dir info_get_def split: pyval.splits)
  have same: "objects s1 = objects s \<and> p_cache s1 = p_cache s"
    using get_all_repositories_fields [OF assms] by simp
  show ?thesis
  proof
    assume "map_of (resolved_info a reponame) ''dir'' = None \<or> map_of a reponame = None"
    then have "map_of (resolved_info a reponame) ''dir'' = None" using nodir by auto
    then show "get_repository B reponame s = (Inr None, s1)
            \<and> objects s1 = objects s \<and> p_cache s1 = p_cache s"
      using res same by simp
  qed
qed

theorem get_repository_without_dir_witness:
  "get_repository plain_backend ''A'' (new_manager alias_rows)
     = (Inr None, snd (get_all_repositories (new_manager alias_rows)))
   \<and> get_repository plain_backend ''trunk'' (new_manager alias_rows)
     = (Inr None, snd (get_all_repositories (new_manager alias_rows)))
   \<and> objects (snd (get_all_repositories (new_manager alias_rows))) = []"
proof -
  note t = get_repository_without_dir [of "new_manager alias_rows"
      "fst (get_all_repositories (new_manager alias_rows))"
      "snd (get_all_repositories (new_manager alias_rows))" _ plain_backend, OF prod.collapse [symmetric]]
  have a: "map_of (resolved_info (fst (get_all_repositories (new_manager alias_rows))) ''A'') ''dir'' = None"
    by (simp add: alias_rows_registry resolved_info_def resolved_name_def dict_get_def)
  have b: "map_of (fst (get_all_repositories (new_manager alias_rows))) ''trunk'' = None"
    by (simp add: alias_rows_registry)
  have o: "objects (new_manager alias_rows) = []" by (simp add: new_manager_def)
  from t [of "''A''"] a t [of "''trunk''"] b o show ?thesis by simp
qed

section \<open>Types without a usable connector\<close>

text \<open>
  C8, as the claim states it, fails: \<open>get_repository\<close> reads the directory before the
  type, so a name whose configured type has no connector but whose lookup ends at no
  directory gets \<^verbatim>\<open>None\<close>, not an error.  Here \<^verbatim>\<open>A\<close> is an alias of a name that is
  not registered, the default type is \<^verbatim>\<open>hg\<close>, and the only connector is for
  \<^verbatim>\<open>svn\<close>.
\<close>

theorem get_repository_unsupported_type_counterexample:
  "configured_type
      (fst (get_all_repositories ((new_manager alias_rows)\<lparr>repository_type := ''hg''\<rparr>))) ''A''
      ((new_manager alias_rows)\<lparr>repository_type := ''hg''\<rparr>) = PStr ''hg''
   \<and> py_or (info_get (dict_get
        (fst (get_all_repositories ((new_manager alias_rows)\<lparr>repository_type := ''hg''\<rparr>)))
        ''A'' []) ''type'') (PStr ''hg'') = PStr ''hg''
   \<and> ''hg'' \<notin> set (get_supported_types ((new_manager alias_rows)\<lparr>repository_type := ''hg''\<rparr>))
   \<and> fst (get_repository plain_backend ''A''
          ((new_manager alias_rows)\<lparr>repository_type := ''hg''\<rparr>)) = Inr None"
proof -
  let ?s = "(new_manager alias_rows)\<lparr>repository_type := ''hg''\<rparr>"
  let ?a = "fst (get_all_repositories ?s)"
  have a: "?a = [(''A'', [(''name'', PStr ''A''), (''alias'', PStr ''B''), (''id'', PInt 1)])]"
    by (simp add: get_all_repositories_def load_repositories_def new_manager_def alias_rows_def
        db_get_repositories_def repository_attrs_def dict_get_def dict_in_def)
  have n: "resolved_name ?a ''A'' = PStr ''B''"
    by (simp add: a resolved_name_def dict_get_def)
  have i: "resolved_info ?a ''A'' = []"
    by (simp add: resolved_info_def n) (simp add: a dict_get_def)
  have ct: "configured_type ?a ''A'' ?s = PStr ''hg''"
    by (simp add: configured_type_def i info_get_def py_or_def)
  have own: "py_or (info_get (dict_get ?a ''A'' []) ''type'') (PStr ''hg'') = PStr ''hg''"
    by (simp add: a dict_get_def info_get_def py_or_def)
  have u: "''hg'' \<notin> set (get_supported_types ?s)"
    by (simp add: get_supported_types_def new_manager_def svn_connector_def)
  have "get_repository plain_backend ''A'' ?s =
      get_repository_dir plain_backend ''B'' [] (snd (get_all_repositories ?s))"
    by (simp add: get_repository_resolved [OF prod.collapse [symmetric]] n i)
  then have r: "fst (get_repository plain_backend ''A'' ?s) = Inr None"
    by (simp add: get_repository_dir_no_dir info_get_def)
  show ?thesis using ct own u r by simp
qed

text \<open>
  C8, amended: let the lookup of a name end, after at most one alias resolution, at an
  entry with a non-empty directory, for which the running thread has no instance in its
  cache, the table of preferred connectors being unbuilt or built from the registered
  connectors.  When no connector supports the type of that entry (or the default type,
  when the entry has none) with a priority that is not negative, that is, no connector
  is registered for it or only connectors of negative priority, \<open>get_repository\<close>
  raises a \<^verbatim>\<open>TracError\<close> whose message carries the type under the key \<^verbatim>\<open>name\<close>.
  The error and the state are those of the one call of \<open>get_connector\<close>: no
  repository object is built and none is stored in the cache of the thread.
\<close>

theorem get_repository_unsupported_type:
  assumes reg: "get_all_repositories s = (a, s1)"
    and name: "resolved_name a reponame = PStr n"
    and dir: "info_get (resolved_info a reponame) ''dir'' = PStr d" "d \<noteq> []"
    and cache: "map_of (dict_get (p_cache s) (thread s) []) n = None"
    and built: "connectors_built s"
    and unsupported:
      "\<forall>ty. configured_type a reponame s = PStr ty \<longrightarrow> ty \<notin> set (get_supported_types s)"
  shows "\<exists>t kw s2. get_repository B reponame s = (Inl (TracError t kw), s2)
           \<and> map_of kw ''name'' = Some (configured_type a reponame s)
           \<and> get_connector (configured_type a reponame s) (snd (thread_repositories s1))
                = (Inl (TracError t kw), s2)
           \<and> objects s2 = objects s
           \<and> dict_get (p_cache s2) (thread s) [] = dict_get (p_cache s) (thread s) []"
proof -
  note f = get_all_repositories_fields [OF reg]
  let ?info = "resolved_info a reponame"
  let ?rtype = "configured_type a reponame s"
  let ?s1' = "snd (thread_repositories s1)"
  note g = thread_repositories_fields [OF prod.collapse [symmetric], of s1]
  have cache1: "map_of (dict_get (p_cache s1) (thread s1) []) n = None"
    using cache f by simp
  have rt: "py_or (info_get ?info ''type'') (PStr (repository_type s1)) = ?rtype"
    using f by (simp add: configured_type_def)
  have 1: "get_repository B reponame s = get_repository_dir B n ?info s1"
    unfolding get_repository_resolved [OF reg] name by simp
  have 2: "get_repository_dir B n ?info s1 =
      new_repository B n ?info d ?rtype (dict_get (p_cache s1) (thread s1) []) ?s1'"
    unfolding get_repository_dir_uncached [OF dir cache1] rt ..
  have built1: "connectors_built ?s1'"
    using built f g by (simp add: connectors_built_def)
  have sup1: "get_supported_types ?s1' = get_supported_types s"
    using f g by (simp add: get_supported_types_def)
  have "\<exists>t kw. fst (get_connector ?rtype ?s1') = Inl (TracError t kw)
            \<and> map_of kw ''name'' = Some ?rtype"
    by (rule get_connector_unsupported [OF built1]) (use unsupported sup1 in auto)
  then obtain t kw where e: "fst (get_connector ?rtype ?s1') = Inl (TracError t kw)"
    and kw: "map_of kw ''name'' = Some ?rtype" by blast
  let ?s2 = "snd (get_connector ?rtype ?s1')"
  have 3: "get_repository B reponame s = (Inl (TracError t kw), ?s2)"
    unfolding 1 2 by (rule new_repository_error [OF e])
  have s2: "?s2 = ?s1'\<lparr>p_connectors := Some (build_connectors (connectors ?s1') [])\<rparr>"
    by (rule get_connector_state [OF built1])
  have o: "objects ?s2 = objects s"
    unfolding s2 using f g by simp
  have c: "dict_get (p_cache ?s2) (thread s) [] = dict_get (p_cache s) (thread s) []"
    unfolding s2 using f g by simp
  have 4: "get_connector ?rtype ?s1' = (Inl (TracError t kw), ?s2)"
    using e by (simp add: prod_eq_iff)
  show ?thesis using 3 kw 4 o c by blast
qed

theorem get_repository_unsupported_type_witness:
  "\<exists>t kw s2. get_repository plain_backend ''trunk'' (new_manager hg_rows) = (Inl (TracError t kw), s2)
      \<and> map_of kw ''name'' = Some (PStr ''hg'') \<and> objects s2 = []"
proof -
  let ?s = "new_manager hg_rows"
  let ?a = "fst (get_all_repositories ?s)"
  have n: "resolved_name ?a ''trunk'' = PStr ''trunk''"
    by (simp add: hg_rows_registry resolved_name_def dict_get_def)
  have i: "resolved_info ?a ''trunk'' = [(''name'', PStr ''trunk''), (''dir'', PStr ''/srv/hg/trunk''),
                   (''type'', PStr ''hg''), (''id'', PInt 1)]"
    by (simp add: resolved_info_def n) (simp add: hg_rows_registry dict_get_def)
  have d: "info_get (resolved_info ?a ''trunk'') ''dir'' = PStr ''/srv/hg/trunk''"
    by (simp add: i info_get_def)
  have ne: "''/srv/hg/trunk'' \<noteq> []" by simp
  have c: "map_of (dict_get (p_cache ?s) (thread ?s) []) ''trunk'' = None"
    by (simp add: new_manager_def dict_get_def)
  have b: "connectors_built ?s"
    by (simp add: new_manager_def connectors_built_def)
  have ct: "configured_type ?a ''trunk'' ?s = PStr ''hg''"
    by (simp add: configured_type_def i info_get_def py_or_def)
  have u: "\<forall>ty. configured_type ?a ''trunk'' ?s = PStr ty \<longrightarrow> ty \<notin> set (get_supported_types ?s)"
    unfolding ct by (simp add: get_supported_types_def new_manager_def svn_connector_def)
  have o: "objects ?s = []" by (simp add: new_manager_def)
  from get_repository_unsupported_type [OF prod.collapse [symmetric] n d ne c b u, of plain_backend]
  show ?thesis unfolding ct o by blast
qed

section \<open>Aliases\<close>




section \<open>Shutdown of a thread\<close>

text \<open>
  C7, as the claim states it, fails for a thread identifier that is not the one of the
  running thread: thread 1 has looked up \<^verbatim>\<open>trunk\<close> and has the repository in its
  cache; \<^verbatim>\<open>shutdown(1)\<close> called by thread 2 raises \<^verbatim>\<open>AssertionError\<close>
  (\<^verbatim>\<open>assert tid == threading._get_ident()\<close>), the repository is not closed and the
  entry of thread 1 stays in the cache.
\<close>

theorem shutdown_closes_and_evicts_counterexample:
  "map_of (dict_get (p_cache (trunk_manager\<lparr>thread := 2\<rparr>)) 1 []) ''trunk'' = Some 0
   \<and> fst (shutdown (Some 1) (trunk_manager\<lparr>thread := 2\<rparr>)) = Inl AssertionError
   \<and> \<not> r_closed (objects (snd (shutdown (Some 1) (trunk_manager\<lparr>thread := 2\<rparr>))) ! 0)
   \<and> map_of (p_cache (snd (shutdown (Some 1) (trunk_manager\<lparr>thread := 2\<rparr>)))) 1
        = Some [(''trunk'', 0)]"
  using trunk_manager_cache by (simp add: shutdown_def dict_get_def)

text \<open>
  C7, amended: \<^verbatim>\<open>shutdown(tid)\<close>, for the identifier of the running thread (which is
  not zero), does not raise, closes every repository instance in the cache of that
  thread, removes the entry of that thread from the cache and leaves the entries of
  the other threads; after it, every repository that \<open>get_repository\<close> returns in that
  thread, after any run of further lookups, was built after the shutdown and is open:
  none of the closed instances is used again.
\<close>

theorem shutdown_closes_and_evicts:
  assumes "tid \<noteq> 0" and "thread s = tid"
  shows "fst (shutdown (Some tid) s) = Inr ()
     \<and> (\<forall>(n, ob) \<in> set (dict_get (p_cache s) tid []).
           ob < length (objects s) \<longrightarrow> r_closed (objects (snd (shutdown (Some tid) s)) ! ob))
     \<and> map_of (p_cache (snd (shutdown (Some tid) s))) tid = None
     \<and> (\<forall>t. t \<noteq> tid \<longrightarrow>
           map_of (p_cache (snd (shutdown (Some tid) s))) t = map_of (p_cache s) t)
     \<and> (\<forall>ns n ob s3.
           get_repository B n (get_repository_calls B ns (snd (shutdown (Some tid) s)))
             = (Inr (Some ob), s3) \<longrightarrow>
           length (objects s) \<le> ob \<and> ob < length (objects s3) \<and> \<not> r_closed (objects s3 ! ob))"
proof -
  let ?s' = "s\<lparr>p_cache := AList.delete tid (p_cache s),
                objects := close_all (map snd (dict_get (p_cache s) tid [])) (objects s)\<rparr>"
  have sd: "shutdown (Some tid) s = (Inr (), ?s')"
    using assms by (rule shutdown_running_thread)
  have closed: "\<forall>(n, ob) \<in> set (dict_get (p_cache s) tid []).
           ob < length (objects s) \<longrightarrow> r_closed (objects ?s' ! ob)"
  proof (clarify)
    fix n ob assume "(n, ob) \<in> set (dict_get (p_cache s) tid [])" "ob < length (objects s)"
    then have "ob \<in> set (map snd (dict_get (p_cache s) tid []))" by force
    then show "r_closed (objects ?s' ! ob)"
      using \<open>ob < length (objects s)\<close> by (simp add: close_all_closed)
  qed
  have evicted: "map_of (p_cache ?s') tid = None"
    by (simp add: delete_conv')
  have others: "\<forall>t. t \<noteq> tid \<longrightarrow> map_of (p_cache ?s') t = map_of (p_cache s) t"
    by (simp add: delete_conv')
  have J: "constructed_since (length (objects s)) ?s'"
    using assms(2) evicted by (auto simp: constructed_since_def dict_get_def)
  have later: "length (objects s) \<le> ob \<and> ob < length (objects s3) \<and> \<not> r_closed (objects s3 ! ob)"
    if "get_repository B n (get_repository_calls B ns ?s') = (Inr (Some ob), s3)" for ns n ob s3
    using get_repository_constructed_since
      [OF get_repository_calls_constructed_since [OF J, of B ns] that]
    by simp
  show ?thesis unfolding sd using closed evicted others later by simp
qed

theorem shutdown_closes_and_evicts_witness:
  "fst (shutdown (Some 1) trunk_manager) = Inr ()
   \<and> (''trunk'', 0) \<in> set (dict_get (p_cache trunk_manager) 1 [])
   \<and> r_closed (objects (snd (shutdown (Some 1) trunk_manager)) ! 0)
   \<and> map_of (p_cache (snd (shutdown (Some 1) trunk_manager))) 1 = None
   \<and> fst (get_repository plain_backend ''trunk'' (snd (shutdown (Some 1) trunk_manager)))
        = Inr (Some 1)
   \<and> \<not> r_closed (objects (snd (get_repository plain_backend ''trunk''
          (snd (shutdown (Some 1) trunk_manager)))) ! 1)"
proof -
  have one: "(1::nat) \<noteq> 0" by simp
  have th: "thread trunk_manager = 1" using trunk_manager_cache by simp
  note t = shutdown_closes_and_evicts [OF one th, of plain_backend]
  have mem: "(''trunk'', 0) \<in> set (dict_get (p_cache trunk_manager) 1 [])"
    using trunk_manager_cache by (simp add: dict_get_def)
  have len: "0 < length (objects trunk_manager)" using trunk_manager_cache by simp
  have closed: "r_closed (objects (snd (shutdown (Some 1) trunk_manager)) ! 0)"
    using t [THEN conjunct2, THEN conjunct1, rule_format, OF mem] len by simp
  have later: "length (objects trunk_manager) \<le> 1
      \<and> 1 < length (objects (snd (get_repository plain_backend ''trunk''
          (snd (shutdown (Some 1) trunk_manager)))))
      \<and> \<not> r_closed (objects (snd (get_repository plain_backend ''trunk''
          (snd (shutdown (Some 1) trunk_manager)))) ! 1)"
    using t [THEN conjunct2, THEN conjunct2, THEN conjunct2, THEN conjunct2, rule_format,
        of "''trunk''" "[]" 1] trunk_manager_again
    by simp
  show ?thesis
    using t mem closed later trunk_manager_again by (simp add: prod_eq_iff)
qed

section \<open>Adding a repository\<close>

text \<open>
  C5, as the claim states it, fails for a name that already has an id: the checks pass
  and only the two rows of the directory and the type are written, since
  \<open>get_repository_id\<close> finds the id and inserts no \<^verbatim>\<open>name\<close> row.  Here \<^verbatim>\<open>A\<close> was
  registered as an alias before.
\<close>

theorem add_repository_checks_and_rows_counterexample:
  "isabs ''/srv/svn/a''
   \<and> ''svn'' \<in> set (get_supported_types (new_manager alias_rows))
   \<and> fst (add_repository ''A'' ''/srv/svn/a'' (Some ''svn'') (new_manager alias_rows)) = Inr ()
   \<and> database (snd (add_repository ''A'' ''/srv/svn/a'' (Some ''svn'') (new_manager alias_rows)))
       = database (new_manager alias_rows)
           @ [(1, ''dir'', Some ''/srv/svn/a''), (1, ''type'', Some ''svn'')]"
  by (simp add: add_repository_defs)

text \<open>
  C5, amended: \<open>add_repository\<close> raises a \<^verbatim>\<open>TracError\<close> when the directory is not
  absolute, and raises one when a non-empty type is given that is not among the
  supported types; in both cases nothing is written and the state is unchanged.  When
  the checks pass it does not raise and writes, in one step, the \<^verbatim>\<open>dir\<close> row and the
  \<^verbatim>\<open>type\<close> row (with the empty string for a missing type) under the id of the name,
  preceded by the \<^verbatim>\<open>name\<close> row when the name had no id yet: three rows for a new name,
  two for a known one.  Then the repositories are reloaded.
\<close>

theorem add_repository_checks_and_rows:
  "(\<not> isabs dir \<longrightarrow>
      add_repository reponame dir ty s = (Inl (TracError Directory_must_be_absolute []), s))
   \<and> (isabs dir \<and> ty = Some t \<and> t \<noteq> [] \<and> t \<notin> set (get_supported_types s) \<longrightarrow>
      add_repository reponame dir ty s
        = (Inl (TracError Repository_type_not_supported [(''type'', PStr t)]), s))
   \<and> (isabs dir \<and> (ty = None \<or> ty = Some [] \<or> (\<exists>t'. ty = Some t' \<and> t' \<in> set (get_supported_types s)))
        \<longrightarrow>
      (let n = (if is_default (default_label s) reponame then [] else reponame);
           i = fst (get_repository_id (database s) n);
           rows = [(i, ''dir'', Some dir), (i, ''type'', Some (case ty of None \<Rightarrow> [] | Some t' \<Rightarrow> t'))];
           s' = snd (add_repository reponame dir ty s)
       in fst (add_repository reponame dir ty s) = Inr ()
          \<and> (select_id_by_name (database s) n = [] \<longrightarrow>
                database s' = database s @ (i, ''name'', Some n) # rows)
          \<and> (select_id_by_name (database s) n \<noteq> [] \<longrightarrow> database s' = database s @ rows)
          \<and> p_cache s' = [] \<and> p_all_repositories s' = None))"
proof (intro conjI impI)
  assume "\<not> isabs dir"
  then show "add_repository reponame dir ty s = (Inl (TracError Directory_must_be_absolute []), s)"
    by (simp add: add_repository_def)
next
  assume "isabs dir \<and> ty = Some t \<and> t \<noteq> [] \<and> t \<notin> set (get_supported_types s)"
  then show "add_repository reponame dir ty s
        = (Inl (TracError Repository_type_not_supported [(''type'', PStr t)]), s)"
    by (simp add: add_repository_def Let_def)
next
  assume a: "isabs dir \<and> (ty = None \<or> ty = Some [] \<or> (\<exists>t'. ty = Some t' \<and> t' \<in> set (get_supported_types s)))"
  let ?n = "if is_default (default_label s) reponame then [] else reponame"
  let ?t = "case ty of None \<Rightarrow> [] | Some t' \<Rightarrow> t'"
  have run: "add_repository reponame dir ty s = (Inr (), add_repository_rows ?n dir ?t s)"
    using a by (cases ty) (auto simp: add_repository_def Let_def)
  note d = add_repository_rows_database [of ?n dir ?t s]
  have new: "select_id_by_name (database s) ?n = [] \<Longrightarrow>
      get_repository_id (database s) ?n =
        (select_max_id (database s) + 1,
         database s @ [(select_max_id (database s) + 1, ''name'', Some ?n)])"
    by (rule get_repository_id_new)
  have old: "select_id_by_name (database s) ?n \<noteq> [] \<Longrightarrow>
      snd (get_repository_id (database s) ?n) = database s"
    by (cases "select_id_by_name (database s) ?n") (simp_all add: get_repository_id_found)
  show "let n = ?n;
           i = fst (get_repository_id (database s) n);
           rows = [(i, ''dir'', Some dir), (i, ''type'', Some ?t)];
           s' = snd (add_repository reponame dir ty s)
       in fst (add_repository reponame dir ty s) = Inr ()
          \<and> (select_id_by_name (database s) n = [] \<longrightarrow>
                database s' = database s @ (i, ''name'', Some n) # rows)
          \<and> (select_id_by_name (database s) n \<noteq> [] \<longrightarrow> database s' = database s @ rows)
          \<and> p_cache s' = [] \<and> p_all_repositories s' = None"
    unfolding Let_def run using d new old by auto
qed

theorem add_repository_checks_and_rows_witness:
  "add_repository ''trunk'' ''svn/trunk'' (Some ''svn'') (new_manager [])
     = (Inl (TracError Directory_must_be_absolute []), new_manager [])
   \<and> add_repository ''trunk'' ''/srv/hg/trunk'' (Some ''hg'') (new_manager [])
     = (Inl (TracError Repository_type_not_supported [(''type'', PStr ''hg'')]), new_manager [])
   \<and> fst (add_repository ''trunk'' ''/srv/svn/trunk'' (Some ''svn'') (new_manager [])) = Inr ()
   \<and> database (snd (add_repository ''trunk'' ''/srv/svn/trunk'' (Some ''svn'') (new_manager [])))
       = svn_rows
   \<and> database (snd (add_repository ''trunk'' ''/srv/svn/trunk'' (Some ''svn'') (new_manager svn_rows)))
       = svn_rows @ [(1, ''dir'', Some ''/srv/svn/trunk''), (1, ''type'', Some ''svn'')]"
proof -
  have rel: "\<not> isabs ''svn/trunk''" by (simp add: isabs_def)
  have ab: "isabs ''/srv/hg/trunk''" "isabs ''/srv/svn/trunk''" by (simp_all add: isabs_def)
  have hg: "''hg'' \<noteq> [] \<and> ''hg'' \<notin> set (get_supported_types (new_manager rows))" for rows
    by (simp add: get_supported_types_def new_manager_def svn_connector_def)
  have svn: "''svn'' \<in> set (get_supported_types (new_manager rows))" for rows
    by (simp add: get_supported_types_def new_manager_def svn_connector_def)
  have 1: "add_repository ''trunk'' ''svn/trunk'' (Some ''svn'') (new_manager [])
     = (Inl (TracError Directory_must_be_absolute []), new_manager [])"
    using add_repository_checks_and_rows [of "''svn/trunk''" "''trunk''" "Some ''svn''" "new_manager []"]
      rel by simp
  have 2: "add_repository ''trunk'' ''/srv/hg/trunk'' (Some ''hg'') (new_manager [])
     = (Inl (TracError Repository_type_not_supported [(''type'', PStr ''hg'')]), new_manager [])"
    using add_repository_checks_and_rows [of "''/srv/hg/trunk''" "''trunk''" "Some ''hg''"
        "new_manager []" "''hg''"] ab hg [of "[]"] by simp
  have 3: "fst (add_repository ''trunk'' ''/srv/svn/trunk'' (Some ''svn'') (new_manager [])) = Inr ()
     \<and> database (snd (add_repository ''trunk'' ''/srv/svn/trunk'' (Some ''svn'') (new_manager [])))
       = svn_rows"
    using add_repository_checks_and_rows [of "''/srv/svn/trunk''" "''trunk''" "Some ''svn''"
        "new_manager []"] ab svn [of "[]"]
    by (simp add: Let_def is_default_def new_manager_def select_id_by_name_def
          get_repository_id_def select_max_id_def svn_rows_def)
  have 4: "database (snd (add_repository ''trunk'' ''/srv/svn/trunk'' (Some ''svn'') (new_manager svn_rows)))
       = svn_rows @ [(1, ''dir'', Some ''/srv/svn/trunk''), (1, ''type'', Some ''svn'')]"
    using add_repository_checks_and_rows [of "''/srv/svn/trunk''" "''trunk''" "Some ''svn''"
        "new_manager svn_rows"] ab svn [of svn_rows]
    by (simp add: Let_def is_default_def new_manager_def select_id_by_name_def
          get_repository_id_def select_max_id_def svn_rows_def)
  show ?thesis using 1 2 3 4 by simp
qed

section \<open>Repository of a path\<close>

text \<open>
  C2, as the claim states it, fails: a name matches only on whole components of the
  path, so the longest registered name that is a prefix of the path as a string need
  not be chosen.  With the default repository and \<^verbatim>\<open>su\<close> registered, the path
  \<^verbatim>\<open>sub/foo\<close> has the prefix \<^verbatim>\<open>su\<close>, but no name matches and the method returns
  the default repository with the whole path.
\<close>

theorem get_repository_by_path_longest_counterexample:
  "map fst (fst (get_all_repositories (new_manager su_rows))) = ['''', ''su'']
   \<and> startswith ''sub/foo'' ''su''
   \<and> fst (get_repository_by_path plain_backend ''sub/foo'' (new_manager su_rows))
        = Inr ('''', Some 0, ''sub/foo'')"
  by (simp add: by_path_defs)

text \<open>
  C2, amended: the path is stripped of its slashes and gets one at its end, and a
  registered name matches it when the stripped name followed by a slash is a prefix of
  it.  When no name matches, \<open>get_repository_by_path\<close> takes the empty name and the
  whole path.  Otherwise it takes a registered name that matches, whose stripped form
  is the longest among the matching names, the greatest name in lexicographic order
  among those of that length, and returns what remains of the path after the stripped
  name and its slash, without slashes at its end, or a slash when nothing remains.
  The repository returned is the one that \<open>get_repository\<close> gives for that name.  With
  the names \<^verbatim>\<open>""\<close> and \<^verbatim>\<open>"sub"\<close>, the path \<^verbatim>\<open>sub/foo\<close> gives \<^verbatim>\<open>"sub"\<close> and
  \<^verbatim>\<open>foo\<close>.
\<close>

theorem get_repository_by_path_longest:
  "((\<forall>n \<in> set reponames. \<not> name_matches (normalized_path path) n) \<longrightarrow>
      split_repository_path reponames path = ([], remaining_path (normalized_path path)))
   \<and> ((\<exists>n \<in> set reponames. name_matches (normalized_path path) n) \<longrightarrow>
      fst (split_repository_path reponames path) \<in> set reponames
      \<and> name_matches (normalized_path path) (fst (split_repository_path reponames path))
      \<and> (\<forall>m \<in> set reponames. name_matches (normalized_path path) m \<longrightarrow>
            length (strip_slash m) < length (strip_slash (fst (split_repository_path reponames path)))
            \<or> (length (strip_slash m) = length (strip_slash (fst (split_repository_path reponames path)))
                \<and> m \<le> fst (split_repository_path reponames path)))
      \<and> snd (split_repository_path reponames path)
           = remaining_path (drop (length (strip_slash (fst (split_repository_path reponames path))) + 1)
                                  (normalized_path path)))
   \<and> split_repository_path ['''', ''sub''] ''sub/foo'' = (''sub'', ''foo'')
   \<and> (get_all_repositories s = (a, s1) \<and>
        get_repository B (fst (split_repository_path (map fst a) path)) s1 = (Inr repos, s2) \<longrightarrow>
        get_repository_by_path B path s
          = (Inr (fst (split_repository_path (map fst a) path), repos,
                  snd (split_repository_path (map fst a) path)), s2))"
proof (intro conjI impI)
  show "split_repository_path ['''', ''sub''] ''sub/foo'' = (''sub'', ''foo'')"
    by (simp add: split_repository_path_def path_matches_def strip_slash_def rstrip_slash_def
          startswith_def Let_def)
next
  assume "get_all_repositories s = (a, s1) \<and>
        get_repository B (fst (split_repository_path (map fst a) path)) s1 = (Inr repos, s2)"
  then show "get_repository_by_path B path s
          = (Inr (fst (split_repository_path (map fst a) path), repos,
                  snd (split_repository_path (map fst a) path)), s2)"
    by (simp add: get_repository_by_path_def split_beta)
qed (use split_repository_path_none [of reponames path]
         split_repository_path_some [of reponames path] in simp_all)

theorem get_repository_by_path_longest_witness:
  "map fst (fst (get_all_repositories (new_manager sub_rows))) = ['''', ''sub'']
   \<and> name_matches (normalized_path ''sub/foo'') ''sub''
   \<and> \<not> name_matches (normalized_path ''sub/foo'') ''''
   \<and> split_repository_path ['''', ''sub''] ''sub/foo'' = (''sub'', ''foo'')
   \<and> split_repository_path ['''', ''sub''] ''lib/foo'' = ('''', ''lib/foo'')
   \<and> fst (get_repository_by_path plain_backend ''sub/foo'' (new_manager sub_rows))
        = Inr (''sub'', Some 0, ''foo'')"
proof -
  have names: "map fst (fst (get_all_repositories (new_manager sub_rows))) = ['''', ''sub'']"
    by (simp add: by_path_defs)
  have m: "name_matches (normalized_path ''sub/foo'') ''sub''"
      "\<not> name_matches (normalized_path ''sub/foo'') ''''"
    by (simp_all add: name_matches_def normalized_path_def strip_slash_def rstrip_slash_def
          startswith_def)
  have none: "\<forall>n \<in> set ['''', ''sub'']. \<not> name_matches (normalized_path ''lib/foo'') n"
    by (simp add: name_matches_def normalized_path_def strip_slash_def rstrip_slash_def
          startswith_def)
  note t = get_repository_by_path_longest [of "['''', ''sub'']" "''lib/foo''"]
  have lib: "split_repository_path ['''', ''sub''] ''lib/foo'' = ('''', ''lib/foo'')"
    using t [THEN conjunct1] none
    by (simp add: remaining_path_def normalized_path_def strip_slash_def rstrip_slash_def)
  note u = get_repository_by_path_longest [of "['''', ''sub'']" "''sub/foo''"
      "new_manager sub_rows" "fst (get_all_repositories (new_manager sub_rows))"
      "snd (get_all_repositories (new_manager sub_rows))" plain_backend "Some 0"
      "snd (get_repository plain_backend ''sub'' (snd (get_all_repositories (new_manager sub_rows))))"]
  have sub: "split_repository_path ['''', ''sub''] ''sub/foo'' = (''sub'', ''foo'')"
    by (rule u [THEN conjunct2, THEN conjunct2, THEN conjunct1])
  have g: "get_repository plain_backend ''sub'' (snd (get_all_repositories (new_manager sub_rows)))
      = (Inr (Some 0),
         snd (get_repository plain_backend ''sub'' (snd (get_all_repositories (new_manager sub_rows)))))"
    by (simp add: prod_eq_iff) (simp add: by_path_defs)
  have full: "fst (get_repository_by_path plain_backend ''sub/foo'' (new_manager sub_rows))
        = Inr (''sub'', Some 0, ''foo'')"
    using u [THEN conjunct2, THEN conjunct2, THEN conjunct2] g names sub by simp
  show ?thesis using names m sub lib full by simp
qed

section \<open>Properties of Changeset\<close>

text \<open>
  C10, as the claim states it, fails: a message or an author that is true in Python and
  not a string, such as the integer 5 or \<^verbatim>\<open>True\<close>, is stored unchanged by
  \<^verbatim>\<open>message or ''\<close>, so the stored value is not always a string.
\<close>

theorem Changeset_init_message_author_counterexample:
  "cs_message (Changeset_init (0::nat) (PInt 1) (PInt 5) (PBool True) (0::nat)) = PInt 5
   \<and> cs_author (Changeset_init (0::nat) (PInt 1) (PInt 5) (PBool True) (0::nat)) = PBool True
   \<and> \<not> is_str (cs_message (Changeset_init (0::nat) (PInt 1) (PInt 5) (PBool True) (0::nat)))
   \<and> \<not> is_str (cs_author (Changeset_init (0::nat) (PInt 1) (PInt 5) (PBool True) (0::nat)))"
  by (simp add: Changeset_init_def py_or_def)

text \<open>
  C10, amended: a Changeset constructed with a falsy message or author (in particular
  \<^verbatim>\<open>None\<close>) has the empty string there, and one constructed with a message or author
  that is true in Python has that value unchanged; the stored message and author are
  never \<^verbatim>\<open>None\<close>, and they are strings whenever the arguments are strings or
  \<^verbatim>\<open>None\<close>.
\<close>

theorem Changeset_init_message_author:
  "(\<not> truthy m \<longrightarrow> cs_message (Changeset_init r v m a d) = PStr '''')
   \<and> (\<not> truthy a \<longrightarrow> cs_author (Changeset_init r v m a d) = PStr '''')
   \<and> (truthy m \<longrightarrow> cs_message (Changeset_init r v m a d) = m)
   \<and> (truthy a \<longrightarrow> cs_author (Changeset_init r v m a d) = a)
   \<and> cs_message (Changeset_init r v PNone a d) = PStr ''''
   \<and> cs_author (Changeset_init r v m PNone d) = PStr ''''
   \<and> cs_message (Changeset_init r v m a d) \<noteq> PNone
   \<and> cs_author (Changeset_init r v m a d) \<noteq> PNone
   \<and> (m = PNone \<or> is_str m \<longrightarrow> is_str (cs_message (Changeset_init r v m a d)))
   \<and> (a = PNone \<or> is_str a \<longrightarrow> is_str (cs_author (Changeset_init r v m a d)))"
  by (cases m; cases a) (simp_all add: Changeset_init_def py_or_def)

theorem Changeset_init_message_author_witness:
  "cs_message (Changeset_init (0::nat) (PInt 5) (PStr '''') (PBool False) (0::nat)) = PStr ''''
   \<and> cs_author (Changeset_init (0::nat) (PInt 5) (PStr '''') (PBool False) (0::nat)) = PStr ''''
   \<and> is_str (cs_message (Changeset_init (0::nat) (PInt 5) (PStr '''') (PBool False) (0::nat)))
   \<and> cs_message (Changeset_init (0::nat) (PInt 5) (PStr ''fix'') PNone (0::nat)) = PStr ''fix''
   \<and> is_str (cs_author (Changeset_init (0::nat) (PInt 5) (PStr ''fix'') PNone (0::nat)))"
  using Changeset_init_message_author [of "PStr ''''" "0::nat" "PInt 5" "PBool False" "0::nat"]
    Changeset_init_message_author [of "PStr ''fix''" "0::nat" "PInt 5" PNone "0::nat"]
  by simp

end
